theory Spec2Isabelle
  imports
    Complex_Main
    "HOL-Library.Sublist"
    "HOL-Library.List_Lexorder"
    "HOL-Library.Char_ord"
    "HOL-Library.AList"
begin

chapter \<open>Token tracker: pricing, configuration, extraction and the aggregate store\<close>

text \<open>
  A shallow embedding of \<^verbatim>\<open>tracker/pricing.py\<close>, \<^verbatim>\<open>tracker/config.py\<close>,
  \<^verbatim>\<open>tracker/parser.py\<close> and \<^verbatim>\<open>tracker/db.py\<close>.

  Conventions of the embedding.
  \<^item> Python \<^verbatim>\<open>str\<close> is \<^typ>\<open>string\<close>. Its order is the lexicographic order on characters
    (\<^verbatim>\<open>List_Lexorder\<close> over \<^verbatim>\<open>Char_ord\<close>), which is the byte order SQLite's default
    \<^verbatim>\<open>BINARY\<close> collation uses for \<^verbatim>\<open>TEXT\<close>, for \<^verbatim>\<open>MAX\<close>, \<^verbatim>\<open>MIN\<close>, \<^verbatim>\<open>>=\<close> and
    \<^verbatim>\<open>ORDER BY\<close> alike.
  \<^item> Python \<^verbatim>\<open>int\<close> is \<^typ>\<open>int\<close>.
  \<^item> Python \<^verbatim>\<open>float\<close> and SQLite \<^verbatim>\<open>REAL\<close> are \<^typ>\<open>real\<close>. The code computes a cost
    in IEEE doubles, rounding after every operation; the embedding writes the same formula
    over exact numbers and has no model of that rounding, so the value of a cost here is
    the value in the code only up to rounding. No theorem below states what a cost is; the
    theorems about the store hold for whatever cost a Turn is given.
  \<^item> A \<^verbatim>\<open>dict\<close> whose iteration order the code relies on, and a table of the database, is
    a list in insertion order with pairwise different keys.
\<close>

section \<open>Pricing (\<^verbatim>\<open>tracker/pricing.py\<close>)\<close>

text \<open>
  One entry of the price table: USD per million tokens, by token kind (the keys
  \<^verbatim>\<open>"input"\<close>, \<^verbatim>\<open>"output"\<close>, \<^verbatim>\<open>"cache_write"\<close>, \<^verbatim>\<open>"cache_read"\<close> of the source).
\<close>

record pricing =
  input_rate :: real
  output_rate :: real
  cache_write_rate :: real
  cache_read_rate :: real

definition rates :: "real \<Rightarrow> real \<Rightarrow> real \<Rightarrow> real \<Rightarrow> pricing" where
  "rates i out cw cr = \<lparr>input_rate = i, output_rate = out, cache_write_rate = cw, cache_read_rate = cr\<rparr>"

text \<open>The table \<^verbatim>\<open>PRICING\<close>, in the order the source writes it.\<close>

definition PRICING :: "(string \<times> pricing) list" where
  "PRICING =
    [(''claude-sonnet-4-6'', rates 3.00 15.00 3.75 0.30),
     (''claude-sonnet-4-5'', rates 3.00 15.00 3.75 0.30),
     (''claude-opus-4-6'', rates 15.00 75.00 18.75 1.50),
     (''claude-opus-4-5'', rates 15.00 75.00 18.75 1.50),
     (''claude-haiku-4-5'', rates 0.80 4.00 1.00 0.08),
     (''claude-haiku-4-5-20251001'', rates 0.80 4.00 1.00 0.08),
     (''claude-3-5-sonnet-20241022'', rates 3.00 15.00 3.75 0.30),
     (''claude-3-5-haiku-20241022'', rates 0.80 4.00 1.00 0.08),
     (''claude-3-opus-20240229'', rates 15.00 75.00 18.75 1.50)]"

definition DEFAULT :: pricing where
  "DEFAULT = rates 3.00 15.00 3.75 0.30"

text \<open>\<^verbatim>\<open>a.startswith(b)\<close>: \<open>b\<close> is a prefix of \<open>a\<close>.\<close>

definition startswith :: "string \<Rightarrow> string \<Rightarrow> bool" where
  "startswith a b = prefix b a"

text \<open>
  The loop \<^verbatim>\<open>for key in PRICING: if model.startswith(key) or key.startswith(model):
  return PRICING[key]\<close>, followed by \<^verbatim>\<open>return _DEFAULT\<close>.
\<close>

fun prefix_scan :: "string \<Rightarrow> (string \<times> pricing) list \<Rightarrow> pricing" where
  "prefix_scan model [] = DEFAULT"
| "prefix_scan model ((key, p) # rest) =
     (if startswith model key \<or> startswith key model then p else prefix_scan model rest)"

definition get_pricing :: "string \<Rightarrow> pricing" where
  "get_pricing model =
     (case map_of PRICING model of
        Some p \<Rightarrow> p
      | None \<Rightarrow> prefix_scan model PRICING)"

text \<open>
  \<^verbatim>\<open>calculate_cost\<close>, with the operations of the source in their order, over exact numbers.
\<close>

definition calculate_cost :: "string \<Rightarrow> int \<Rightarrow> int \<Rightarrow> int \<Rightarrow> int \<Rightarrow> real" where
  "calculate_cost model input_tokens output_tokens cache_creation_tokens cache_read_tokens =
     (let p = get_pricing model in
        of_int input_tokens * input_rate p / 1000000
        + of_int output_tokens * output_rate p / 1000000
        + of_int cache_creation_tokens * cache_write_rate p / 1000000
        + of_int cache_read_tokens * cache_read_rate p / 1000000)"

section \<open>Exceptions\<close>

text \<open>The Python exceptions that the modelled code raises.\<close>

datatype py_error = AttributeError | TypeError | ValueError string

section \<open>Plan configuration (\<^verbatim>\<open>tracker/config.py\<close>)\<close>

datatype json = JNull | JBool bool | JInt int | JStr string

text \<open>
  What is at \<^verbatim>\<open>CONFIG_PATH\<close>: no file; a file that is not JSON; a file holding a JSON value
  that is not an object (an array, a string, a number, \<^verbatim>\<open>true\<close>, \<^verbatim>\<open>false\<close> or \<^verbatim>\<open>null\<close>);
  or a JSON object, the key-value document that \<^verbatim>\<open>_save\<close> writes.
\<close>

datatype config_file = Missing | Not_JSON | Other_JSON | Document "string \<rightharpoonup> json"

text \<open>What \<^verbatim>\<open>_load\<close> returns: a dict, or the value of a file that holds no object.\<close>

datatype loaded = Dict "string \<rightharpoonup> json" | Not_Dict

definition PLAN_LIMITS :: "(string \<times> int) list" where
  "PLAN_LIMITS = [(''pro'', 44000), (''max5'', 88000), (''max20'', 220000)]"

definition PLANS :: "string list" where
  "PLANS = map fst PLAN_LIMITS"

text \<open>
  \<^verbatim>\<open>_load\<close>: a missing file and a JSON decoding error both give the empty dict; any other
  file gives what \<^verbatim>\<open>json.load\<close> gives.
\<close>

fun load :: "config_file \<Rightarrow> loaded" where
  "load Missing = Dict Map.empty"
| "load Not_JSON = Dict Map.empty"
| "load Other_JSON = Not_Dict"
| "load (Document cfg) = Dict cfg"

definition save :: "(string \<rightharpoonup> json) \<Rightarrow> config_file" where
  "save cfg = Document cfg"

text \<open>
  \<^verbatim>\<open>get_plan\<close>: \<^verbatim>\<open>_load().get("plan", "pro")\<close>; a value that is not a dict has no \<^verbatim>\<open>get\<close>.
\<close>

definition get_plan :: "config_file \<Rightarrow> py_error + json" where
  "get_plan f =
     (case load f of
        Not_Dict \<Rightarrow> Inl AttributeError
      | Dict cfg \<Rightarrow> Inr (case cfg ''plan'' of None \<Rightarrow> JStr ''pro'' | Some v \<Rightarrow> v))"

text \<open>
  \<^verbatim>\<open>set_plan\<close> returns the outcome (the raised error, or unit) and the file afterwards.
  The plan is checked first; then \<^verbatim>\<open>cfg["plan"] = plan\<close> raises \<^verbatim>\<open>TypeError\<close> on a value
  that is not a dict, before anything is written.
\<close>

definition set_plan :: "string \<Rightarrow> config_file \<Rightarrow> (py_error + unit) \<times> config_file" where
  "set_plan plan f =
     (if plan \<notin> set (map fst PLAN_LIMITS) then (Inl (ValueError plan), f)
      else
        case load f of
          Not_Dict \<Rightarrow> (Inl TypeError, f)
        | Dict cfg \<Rightarrow> (Inr (), save (cfg(''plan'' \<mapsto> JStr plan))))"

section \<open>Record extraction (\<^verbatim>\<open>tracker/parser.py\<close>)\<close>

text \<open>The dataclass \<^verbatim>\<open>Turn\<close>.\<close>

record turn =
  message_id :: string
  outer_uuid :: string
  session_id :: string
  project_path :: string
  timestamp :: string
  model :: string
  input_tokens :: int
  output_tokens :: int
  cache_creation_tokens :: int
  cache_read_tokens :: int

text \<open>
  One line of a log, after \<^verbatim>\<open>json.loads\<close>. The code calls \<^verbatim>\<open>get\<close> on the line, on its
  \<^verbatim>\<open>message\<close> and on the \<^verbatim>\<open>usage\<close> of the message, tests \<^verbatim>\<open>usage\<close> for truth and adds the
  four counts; each of these values is modelled with the shapes on which the code goes
  different ways.
  \<^item> A count is an integer or \<^verbatim>\<open>null\<close>.
  \<^item> \<^verbatim>\<open>usage\<close> is falsy (the key is absent, or its value is \<^verbatim>\<open>null\<close>, \<^verbatim>\<open>false\<close>, \<open>0\<close>, an
    empty string or an empty array), or a truthy value that is not an object, or an object
    (the dict of its counts, in the order of the file; the empty one is falsy too).
  \<^item> \<^verbatim>\<open>message\<close> is absent, or a value that is not an object (\<^verbatim>\<open>null\<close> too), or an object.
  \<^item> The values that the code only compares or hands on (\<^verbatim>\<open>type\<close>, \<^verbatim>\<open>uuid\<close>, \<^verbatim>\<open>sessionId\<close>,
    \<^verbatim>\<open>timestamp\<close>, \<^verbatim>\<open>cwd\<close>, and \<^verbatim>\<open>id\<close> and \<^verbatim>\<open>model\<close> of the message) are strings where the
    key is present, as \<^verbatim>\<open>Turn\<close> declares them; \<open>None\<close> is an absent key.
\<close>

datatype count = Count int | Null_Count

datatype usage_field = Usage_Falsy | Usage_Not_Object | Usage "(string \<times> count) list"

record message =
  m_id :: "string option"
  m_model :: "string option"
  m_usage :: usage_field

datatype message_field = Message_Absent | Message_Not_Object | Message message

record log_record =
  r_type :: "string option"
  r_uuid :: "string option"
  r_sessionId :: "string option"
  r_timestamp :: "string option"
  r_cwd :: "string option"
  r_message :: message_field

text \<open>
  A raw line is blank, or not JSON (\<^verbatim>\<open>json.JSONDecodeError\<close>), or a JSON value that is not
  an object (an array, a string, a number, \<^verbatim>\<open>true\<close>, \<^verbatim>\<open>false\<close>, \<^verbatim>\<open>null\<close>), or a JSON object.
\<close>

datatype line = Blank | Invalid_JSON | Non_Object | Object log_record

text \<open>What \<^verbatim>\<open>open\<close> gives for a path: \<open>None\<close> is \<^verbatim>\<open>OSError\<close>, otherwise the lines.\<close>

type_synonym file_read = "line list option"

text \<open>\<^verbatim>\<open>d.get(key, default)\<close>.\<close>

definition dict_get :: "('k \<times> 'v) list \<Rightarrow> 'k \<Rightarrow> 'v \<Rightarrow> 'v" where
  "dict_get d key dflt = (case map_of d key of None \<Rightarrow> dflt | Some v \<Rightarrow> v)"

definition opt_get :: "'v option \<Rightarrow> 'v \<Rightarrow> 'v" where
  "opt_get field dflt = (case field of None \<Rightarrow> dflt | Some v \<Rightarrow> v)"

text \<open>
  \<^verbatim>\<open>_get_cwd_from_jsonl\<close>: the \<^verbatim>\<open>cwd\<close> of the first record of type \<^verbatim>\<open>user\<close>; the empty
  string when there is none, or when the file cannot be opened. A line that does not parse
  (a blank one too: the line is not stripped here) is passed over. On a line that is JSON
  but no object, \<^verbatim>\<open>obj.get\<close> raises \<^verbatim>\<open>AttributeError\<close>, which nothing catches.
\<close>

fun first_user_cwd :: "line list \<Rightarrow> py_error + string" where
  "first_user_cwd [] = Inr []"
| "first_user_cwd (Object obj # rest) =
     (if r_type obj = Some ''user'' then Inr (opt_get (r_cwd obj) []) else first_user_cwd rest)"
| "first_user_cwd (Blank # rest) = first_user_cwd rest"
| "first_user_cwd (Invalid_JSON # rest) = first_user_cwd rest"
| "first_user_cwd (Non_Object # rest) = Inl AttributeError"

definition get_cwd_from_jsonl :: "file_read \<Rightarrow> py_error + string" where
  "get_cwd_from_jsonl f = (case f of None \<Rightarrow> Inr [] | Some ls \<Rightarrow> first_user_cwd ls)"

text \<open>
  The body of the loop of \<^verbatim>\<open>iter_turns\<close> for one JSON object, in three steps. The result
  \<open>Inl\<close> is an exception that leaves the loop, \<open>Inr None\<close> is \<^verbatim>\<open>continue\<close>, \<open>Inr (Some t)\<close>
  is the \<^verbatim>\<open>Turn\<close> that was built.

  Last step: \<^verbatim>\<open>total = input_tok + output_tok + cache_create + cache_read\<close> raises
  \<^verbatim>\<open>TypeError\<close> when a count is \<^verbatim>\<open>null\<close>; a total of zero is skipped; otherwise the Turn is
  built. \<^verbatim>\<open>msg.get("id") or obj.get("uuid", "")\<close> takes the uuid when the id is absent or
  empty. The empty string is written \<open>[]\<close>.
\<close>

fun build_turn ::
  "string \<Rightarrow> log_record \<Rightarrow> message \<Rightarrow> count \<Rightarrow> count \<Rightarrow> count \<Rightarrow> count \<Rightarrow> py_error + turn option"
where
  "build_turn pp obj msg (Count input_tok) (Count output_tok) (Count cache_create)
       (Count cache_read) =
     (if input_tok + output_tok + cache_create + cache_read = 0 then Inr None
      else Inr (Some
        \<lparr>message_id =
           (case m_id msg of
              None \<Rightarrow> opt_get (r_uuid obj) []
            | Some i \<Rightarrow> if i = [] then opt_get (r_uuid obj) [] else i),
         outer_uuid = opt_get (r_uuid obj) [],
         session_id = opt_get (r_sessionId obj) [],
         project_path = pp,
         timestamp = opt_get (r_timestamp obj) [],
         model = opt_get (m_model msg) ''unknown'',
         input_tokens = input_tok,
         output_tokens = output_tok,
         cache_creation_tokens = cache_create,
         cache_read_tokens = cache_read\<rparr>))"
| "build_turn pp obj msg _ _ _ _ = Inl TypeError"

text \<open>
  Middle step, on the dict \<^verbatim>\<open>msg\<close>: \<^verbatim>\<open>usage = msg.get("usage")\<close>; a falsy \<^verbatim>\<open>usage\<close> is
  skipped; \<^verbatim>\<open>usage.get\<close> raises \<^verbatim>\<open>AttributeError\<close> on a truthy value that is not a dict;
  an absent count is 0.
\<close>

definition usage_turn :: "string \<Rightarrow> log_record \<Rightarrow> message \<Rightarrow> py_error + turn option" where
  "usage_turn pp obj msg =
     (case m_usage msg of
        Usage_Falsy \<Rightarrow> Inr None
      | Usage_Not_Object \<Rightarrow> Inl AttributeError
      | Usage usage \<Rightarrow>
          if usage = [] then Inr None
          else build_turn pp obj msg
            (dict_get usage ''input_tokens'' (Count 0))
            (dict_get usage ''output_tokens'' (Count 0))
            (dict_get usage ''cache_creation_input_tokens'' (Count 0))
            (dict_get usage ''cache_read_input_tokens'' (Count 0)))"

text \<open>
  First step: a record that is not of type \<^verbatim>\<open>assistant\<close> is skipped;
  \<^verbatim>\<open>msg = obj.get("message", {})\<close>, and \<^verbatim>\<open>msg.get\<close> raises \<^verbatim>\<open>AttributeError\<close> on a value that
  is not a dict.
\<close>

definition record_turn :: "string \<Rightarrow> log_record \<Rightarrow> py_error + turn option" where
  "record_turn pp obj =
     (if r_type obj \<noteq> Some ''assistant'' then Inr None
      else
        case r_message obj of
          Message_Absent \<Rightarrow>
            usage_turn pp obj \<lparr>m_id = None, m_model = None, m_usage = Usage_Falsy\<rparr>
        | Message_Not_Object \<Rightarrow> Inl AttributeError
        | Message msg \<Rightarrow> usage_turn pp obj msg)"

text \<open>
  One raw line: a blank line and a line that is not JSON are skipped; on a JSON value that
  is no object, \<^verbatim>\<open>obj.get("type")\<close> raises \<^verbatim>\<open>AttributeError\<close>.
\<close>

fun line_turn :: "string \<Rightarrow> line \<Rightarrow> py_error + turn option" where
  "line_turn pp Blank = Inr None"
| "line_turn pp Invalid_JSON = Inr None"
| "line_turn pp Non_Object = Inl AttributeError"
| "line_turn pp (Object obj) = record_turn pp obj"

text \<open>
  The dict \<^verbatim>\<open>best\<close>, in insertion order: \<^verbatim>\<open>best[message_id] = turn\<close> replaces the value
  of a key in place and appends a new key, which is \<^const>\<open>AList.update\<close>.
\<close>

definition keep_best :: "turn \<Rightarrow> (string \<times> turn) list \<Rightarrow> (string \<times> turn) list" where
  "keep_best t best =
     (case map_of best (message_id t) of
        None \<Rightarrow> AList.update (message_id t) t best
      | Some existing \<Rightarrow>
          if output_tokens t > output_tokens existing
          then AList.update (message_id t) t best
          else best)"

text \<open>The loop over the lines: it ends with \<^verbatim>\<open>best\<close>, or with the first exception.\<close>

fun scan_lines ::
  "string \<Rightarrow> line list \<Rightarrow> (string \<times> turn) list \<Rightarrow> py_error + (string \<times> turn) list"
where
  "scan_lines pp [] best = Inr best"
| "scan_lines pp (l # ls) best =
     (case line_turn pp l of
        Inl e \<Rightarrow> Inl e
      | Inr None \<Rightarrow> scan_lines pp ls best
      | Inr (Some t) \<Rightarrow> scan_lines pp ls (keep_best t best))"

text \<open>
  \<^verbatim>\<open>iter_turns\<close>, a generator: all lines are processed before the first \<^verbatim>\<open>yield\<close>, so it
  either raises and yields nothing (\<open>Inl\<close>), or yields the values of \<^verbatim>\<open>best\<close> (\<open>Inr\<close>). A
  file that cannot be opened yields nothing and raises nothing.
\<close>

definition iter_turns :: "file_read \<Rightarrow> string \<Rightarrow> py_error + turn list" where
  "iter_turns f pp =
     (case f of
        None \<Rightarrow> Inr []
      | Some ls \<Rightarrow>
          (case scan_lines pp ls [] of
             Inl e \<Rightarrow> Inl e
           | Inr best \<Rightarrow> Inr (map snd best)))"

text \<open>
  \<^verbatim>\<open>scan_session_turns\<close> opens the file twice, first to resolve the working directory and
  then to extract; the log may be appended to in between, so the two reads are two
  arguments.
\<close>

definition scan_session_turns :: "file_read \<Rightarrow> file_read \<Rightarrow> py_error + turn list" where
  "scan_session_turns read_for_cwd read_for_turns =
     (case get_cwd_from_jsonl read_for_cwd of
        Inl e \<Rightarrow> Inl e
      | Inr pp \<Rightarrow> iter_turns read_for_turns pp)"

text \<open>The Turns that a generator yields: none when it raises.\<close>

fun yielded :: "py_error + turn list \<Rightarrow> turn list" where
  "yielded (Inl e) = []"
| "yielded (Inr ts) = ts"

section \<open>The extraction rule in the words of the specification\<close>

text \<open>
  The reading of a log record that the extraction rule is stated in, written down without
  reference to the code above: the usage block of an assistant record, its four counts,
  the test that keeps the record, its grouping key, and the Turn that takes every field
  from the record.
\<close>

text \<open>The usage block of an assistant-originated record; empty when it has none.\<close>

definition spec_usage :: "log_record \<Rightarrow> (string \<times> count) list" where
  "spec_usage obj =
     (if r_type obj = Some ''assistant''
      then (case r_message obj of
              Message msg \<Rightarrow> (case m_usage msg of Usage u \<Rightarrow> u | _ \<Rightarrow> [])
            | _ \<Rightarrow> [])
      else [])"

text \<open>The count under a key of the usage block; zero when the key is absent.\<close>

definition spec_count :: "log_record \<Rightarrow> string \<Rightarrow> int" where
  "spec_count obj key = (case map_of (spec_usage obj) key of Some (Count n) \<Rightarrow> n | _ \<Rightarrow> 0)"

text \<open>
  Steps 2 and 3: a record is kept when it is assistant-originated with a non-empty usage
  block and the total of its four counts is not zero.
\<close>

definition spec_kept :: "log_record \<Rightarrow> bool" where
  "spec_kept obj \<longleftrightarrow>
     spec_usage obj \<noteq> [] \<and>
     spec_count obj ''input_tokens'' + spec_count obj ''output_tokens''
       + spec_count obj ''cache_creation_input_tokens''
       + spec_count obj ''cache_read_input_tokens'' \<noteq> 0"

text \<open>
  Step 4: the grouping key is the message id, and the record's own uuid when the message
  id is absent or empty.
\<close>

definition spec_message_id :: "log_record \<Rightarrow> string" where
  "spec_message_id obj =
     (case r_message obj of
        Message msg \<Rightarrow>
          (if m_id msg = None \<or> m_id msg = Some [] then opt_get (r_uuid obj) []
           else the (m_id msg))
      | _ \<Rightarrow> opt_get (r_uuid obj) [])"

text \<open>Step 5: the Turn of a record, with the supplied project path.\<close>

definition spec_turn :: "string \<Rightarrow> log_record \<Rightarrow> turn" where
  "spec_turn pp obj =
     \<lparr>message_id = spec_message_id obj,
      outer_uuid = opt_get (r_uuid obj) [],
      session_id = opt_get (r_sessionId obj) [],
      project_path = pp,
      timestamp = opt_get (r_timestamp obj) [],
      model =
        (case r_message obj of
           Message msg \<Rightarrow> opt_get (m_model msg) ''unknown''
         | _ \<Rightarrow> ''unknown''),
      input_tokens = spec_count obj ''input_tokens'',
      output_tokens = spec_count obj ''output_tokens'',
      cache_creation_tokens = spec_count obj ''cache_creation_input_tokens'',
      cache_read_tokens = spec_count obj ''cache_read_input_tokens''\<rparr>"

text \<open>The kept records of a log, in file order.\<close>

fun kept_records :: "line list \<Rightarrow> log_record list" where
  "kept_records [] = []"
| "kept_records (Object obj # ls) =
     (if spec_kept obj then obj # kept_records ls else kept_records ls)"
| "kept_records (Blank # ls) = kept_records ls"
| "kept_records (Invalid_JSON # ls) = kept_records ls"
| "kept_records (Non_Object # ls) = kept_records ls"

text \<open>
  The lines of the documented log format: blank lines, lines that are not JSON, and JSON
  objects in which, for an assistant record, the message is absent or an object, its usage
  is falsy or an object, and none of the four counts is \<^verbatim>\<open>null\<close>.
\<close>

definition token_keys :: "string list" where
  "token_keys =
     [''input_tokens'', ''output_tokens'', ''cache_creation_input_tokens'',
      ''cache_read_input_tokens'']"

fun well_shaped :: "line \<Rightarrow> bool" where
  "well_shaped Blank = True"
| "well_shaped Invalid_JSON = True"
| "well_shaped Non_Object = False"
| "well_shaped (Object obj) =
     (r_type obj = Some ''assistant'' \<longrightarrow>
        (case r_message obj of
           Message_Absent \<Rightarrow> True
         | Message_Not_Object \<Rightarrow> False
         | Message msg \<Rightarrow>
             (case m_usage msg of
                Usage_Falsy \<Rightarrow> True
              | Usage_Not_Object \<Rightarrow> False
              | Usage u \<Rightarrow> \<forall>key \<in> set token_keys. map_of u key \<noteq> Some Null_Count)))"

section \<open>Aggregate store (\<^verbatim>\<open>tracker/db.py\<close>)\<close>

text \<open>
  The two tables of \<^verbatim>\<open>_SCHEMA\<close>. A table is the list of its rows in insertion order; the
  primary key is \<^verbatim>\<open>session_id\<close>, respectively \<^verbatim>\<open>message_id\<close>. Integers are unbounded
  here (SQLite stores 64 bits).
\<close>

record session_row =
  s_session_id :: string
  s_project_path :: string
  first_seen :: string
  last_seen :: string

record turn_row =
  t_message_id :: string
  t_session_id :: string
  t_timestamp :: string
  t_model :: string
  t_input_tokens :: int
  t_output_tokens :: int
  t_cache_creation_tokens :: int
  t_cache_read_tokens :: int
  cost_usd :: real

record store =
  sessions :: "session_row list"
  turns :: "turn_row list"

text \<open>\<^verbatim>\<open>init_db\<close> on a fresh database: both tables exist and are empty.\<close>

definition init_db :: store where
  "init_db = \<lparr>sessions = [], turns = []\<rparr>"

text \<open>
  \<^verbatim>\<open>INSERT INTO sessions ... ON CONFLICT(session_id) DO UPDATE SET
  last_seen = MAX(last_seen, excluded.last_seen)\<close>: the row with the key keeps everything
  but \<^verbatim>\<open>last_seen\<close>; without such a row, a new row is added.
\<close>

definition inserted_session :: "turn \<Rightarrow> session_row" where
  "inserted_session t =
     \<lparr>s_session_id = session_id t, s_project_path = project_path t,
      first_seen = timestamp t, last_seen = timestamp t\<rparr>"

definition conflict_session :: "session_row \<Rightarrow> turn \<Rightarrow> session_row" where
  "conflict_session r t = r\<lparr>last_seen := max (last_seen r) (timestamp t)\<rparr>"

fun upsert_session :: "turn \<Rightarrow> session_row list \<Rightarrow> session_row list" where
  "upsert_session t [] = [inserted_session t]"
| "upsert_session t (r # rs) =
     (if s_session_id r = session_id t
      then conflict_session r t # rs
      else r # upsert_session t rs)"

text \<open>
  \<^verbatim>\<open>INSERT INTO turns ... ON CONFLICT(message_id) DO UPDATE SET\<close> with \<^verbatim>\<open>MAX\<close> on
  \<^verbatim>\<open>output_tokens\<close>, \<^verbatim>\<open>cache_creation_tokens\<close>, \<^verbatim>\<open>cache_read_tokens\<close> and \<^verbatim>\<open>cost_usd\<close>.
\<close>

definition inserted_turn :: "turn \<Rightarrow> real \<Rightarrow> turn_row" where
  "inserted_turn t cost =
     \<lparr>t_message_id = message_id t, t_session_id = session_id t,
      t_timestamp = timestamp t, t_model = model t,
      t_input_tokens = input_tokens t, t_output_tokens = output_tokens t,
      t_cache_creation_tokens = cache_creation_tokens t,
      t_cache_read_tokens = cache_read_tokens t, cost_usd = cost\<rparr>"

definition conflict_turn :: "turn_row \<Rightarrow> turn \<Rightarrow> real \<Rightarrow> turn_row" where
  "conflict_turn r t cost =
     r\<lparr>t_output_tokens := max (t_output_tokens r) (output_tokens t),
       t_cache_creation_tokens := max (t_cache_creation_tokens r) (cache_creation_tokens t),
       t_cache_read_tokens := max (t_cache_read_tokens r) (cache_read_tokens t),
       cost_usd := max (cost_usd r) cost\<rparr>"

fun upsert_turn_row :: "turn \<Rightarrow> real \<Rightarrow> turn_row list \<Rightarrow> turn_row list" where
  "upsert_turn_row t cost [] = [inserted_turn t cost]"
| "upsert_turn_row t cost (r # rs) =
     (if t_message_id r = message_id t
      then conflict_turn r t cost # rs
      else r # upsert_turn_row t cost rs)"

definition turn_cost :: "turn \<Rightarrow> real" where
  "turn_cost t =
     calculate_cost (model t) (input_tokens t) (output_tokens t)
       (cache_creation_tokens t) (cache_read_tokens t)"

text \<open>The body of the loop of \<^verbatim>\<open>upsert_turns_bulk\<close>, for one Turn.\<close>

definition upsert_turn :: "turn \<Rightarrow> store \<Rightarrow> store" where
  "upsert_turn t db =
     (let cost = turn_cost t in
        \<lparr>sessions = upsert_session t (sessions db),
         turns = upsert_turn_row t cost (turns db)\<rparr>)"

text \<open>
  \<^verbatim>\<open>upsert_turns_bulk\<close>: the store after the commit, and the count that is returned.
\<close>

definition upsert_turns_bulk :: "turn list \<Rightarrow> store \<Rightarrow> store \<times> int" where
  "upsert_turns_bulk ts db =
     fold (\<lambda>t (con, count). (upsert_turn t con, count + 1)) ts (db, 0)"

text \<open>A sequence of bulk upserts, one batch after the other.\<close>

definition upsert_batches :: "turn list list \<Rightarrow> store \<Rightarrow> store" where
  "upsert_batches batches db = fold (\<lambda>ts con. fst (upsert_turns_bulk ts con)) batches db"

subsection \<open>Queries\<close>

text \<open>
  SQL aggregates over the rows of a group: \<^verbatim>\<open>SUM\<close>, \<^verbatim>\<open>MAX\<close> and \<^verbatim>\<open>MIN\<close> are \<^verbatim>\<open>NULL\<close>
  (\<open>None\<close>) over no rows.
\<close>

fun sql_sum :: "'a::monoid_add list \<Rightarrow> 'a option" where
  "sql_sum [] = None"
| "sql_sum (x # xs) = Some (sum_list (x # xs))"

fun sql_max :: "'a::linorder list \<Rightarrow> 'a option" where
  "sql_max [] = None"
| "sql_max (x # xs) = Some (fold max xs x)"

fun sql_min :: "'a::linorder list \<Rightarrow> 'a option" where
  "sql_min [] = None"
| "sql_min (x # xs) = Some (fold min xs x)"

text \<open>\<^verbatim>\<open>LIMIT n\<close>: a negative \<open>n\<close> is no limit.\<close>

definition sql_limit :: "int \<Rightarrow> 'a list \<Rightarrow> 'a list" where
  "sql_limit n rows = (if n < 0 then rows else take (nat n) rows)"

text \<open>One row of the result of \<^verbatim>\<open>query_sessions\<close>.\<close>

record session_listing =
  l_session_id :: string
  l_project_path :: string
  l_first_seen :: string
  l_last_seen :: string
  l_turns :: int
  l_input_tokens :: "int option"
  l_output_tokens :: "int option"
  l_cache_creation_tokens :: "int option"
  l_cache_read_tokens :: "int option"
  l_cost_usd :: "real option"
  l_model :: "string option"

text \<open>
  The row of one group of \<^verbatim>\<open>sessions s JOIN turns t ON t.session_id = s.session_id
  GROUP BY s.session_id\<close>: a session and its turns.
\<close>

definition group_row :: "session_row \<Rightarrow> turn_row list \<Rightarrow> session_listing" where
  "group_row s g =
     \<lparr>l_session_id = s_session_id s,
      l_project_path = s_project_path s,
      l_first_seen = first_seen s,
      l_last_seen = last_seen s,
      l_turns = int (length g),
      l_input_tokens = sql_sum (map t_input_tokens g),
      l_output_tokens = sql_sum (map t_output_tokens g),
      l_cache_creation_tokens = sql_sum (map t_cache_creation_tokens g),
      l_cache_read_tokens = sql_sum (map t_cache_read_tokens g),
      l_cost_usd = sql_sum (map cost_usd g),
      l_model = sql_max (map t_model g)\<rparr>"

text \<open>The turns joined to a session.\<close>

definition joined :: "store \<Rightarrow> session_row \<Rightarrow> turn_row list" where
  "joined db s = filter (\<lambda>t. t_session_id t = s_session_id s) (turns db)"

text \<open>
  \<^verbatim>\<open>query_sessions\<close>. The join is an inner join, so a session with no turn has no group.
  \<^verbatim>\<open>ORDER BY s.last_seen DESC\<close> leaves the order of rows with equal \<^verbatim>\<open>last_seen\<close> open;
  here they come in the reverse of a stable sort.
\<close>

definition query_sessions :: "int \<Rightarrow> store \<Rightarrow> session_listing list" where
  "query_sessions limit db =
     sql_limit limit
       (rev (sort_key l_last_seen
          (map (\<lambda>s. group_row s (joined db s))
             (filter (\<lambda>s. joined db s \<noteq> []) (sessions db)))))"

subsection \<open>The rolling window\<close>

text \<open>
  SQLite's \<^verbatim>\<open>datetime('now', '-N hours')\<close>, which the query compares timestamps with: the
  UTC time \<open>N\<close> hours before now as the text \<^verbatim>\<open>YYYY-MM-DD HH:MM:SS\<close>, date and time
  separated by a space. Time is in whole seconds since 1970-01-01 00:00:00 UTC, the date is
  the proleptic Gregorian date of the day number, and years are 0000 to 9999.
\<close>

definition civil_from_days :: "int \<Rightarrow> int \<times> int \<times> int" where
  "civil_from_days z0 =
     (let z = z0 + 719468;
          era = z div 146097;
          doe = z - era * 146097;
          yoe = (doe - doe div 1460 + doe div 36524 - doe div 146096) div 365;
          doy = doe - (365 * yoe + yoe div 4 - yoe div 100);
          mp = (5 * doy + 2) div 153;
          d = doy - (153 * mp + 2) div 5 + 1;
          m = (if mp < 10 then mp + 3 else mp - 9);
          y = yoe + era * 400 + (if m \<le> 2 then 1 else 0)
      in (y, m, d))"

definition digit :: "int \<Rightarrow> char" where
  "digit d = ''0123456789'' ! nat (d mod 10)"

definition two_digits :: "int \<Rightarrow> string" where
  "two_digits n = [digit (n div 10), digit n]"

definition four_digits :: "int \<Rightarrow> string" where
  "four_digits n = [digit (n div 1000), digit (n div 100), digit (n div 10), digit n]"

definition date_text :: "int \<Rightarrow> string" where
  "date_text secs =
     (case civil_from_days (secs div 86400) of
        (y, m, d) \<Rightarrow> four_digits y @ ''-'' @ two_digits m @ ''-'' @ two_digits d)"

definition time_text :: "int \<Rightarrow> string" where
  "time_text secs =
     (let s = secs mod 86400
      in two_digits (s div 3600) @ '':'' @ two_digits (s mod 3600 div 60) @ '':'' @ two_digits (s mod 60))"

definition sqlite_datetime :: "int \<Rightarrow> string" where
  "sqlite_datetime secs = date_text secs @ '' '' @ time_text secs"

text \<open>
  The timestamps of the log are ISO-8601 in UTC with the separator \<^verbatim>\<open>T\<close>, milliseconds and
  the suffix \<^verbatim>\<open>Z\<close> (the suffix that \<^verbatim>\<open>dashboard.py\<close> replaces by \<^verbatim>\<open>+00:00\<close> before
  \<^verbatim>\<open>datetime.fromisoformat\<close>); \<^verbatim>\<open>iter_turns\<close> and \<^verbatim>\<open>upsert_turns_bulk\<close> store them as they
  are. This is the timestamp of an instant in that format.
\<close>

definition iso8601_utc :: "int \<Rightarrow> string" where
  "iso8601_utc secs = date_text secs @ ''T'' @ time_text secs @ ''.000Z''"

text \<open>The row that \<^verbatim>\<open>query_rolling_window\<close> returns.\<close>

record window =
  w_sessions :: int
  w_turns :: int
  w_input_tokens :: "int option"
  w_output_tokens :: "int option"
  w_cache_creation_tokens :: "int option"
  w_cache_read_tokens :: "int option"
  w_cost_usd :: "real option"
  oldest_turn :: "string option"

text \<open>
  \<^verbatim>\<open>query_rolling_window\<close>, at the time \<open>now\<close> (seconds since the epoch) and for a number of
  hours that is not negative. \<^verbatim>\<open>WHERE timestamp >= datetime('now', ?)\<close> compares two texts.
\<close>

definition query_rolling_window :: "int \<Rightarrow> nat \<Rightarrow> store \<Rightarrow> window" where
  "query_rolling_window now hours db =
     (let cutoff = sqlite_datetime (now - int hours * 3600);
          rows = filter (\<lambda>t. t_timestamp t \<ge> cutoff) (turns db)
      in \<lparr>w_sessions = int (length (remdups (map t_session_id rows))),
          w_turns = int (length rows),
          w_input_tokens = sql_sum (map t_input_tokens rows),
          w_output_tokens = sql_sum (map t_output_tokens rows),
          w_cache_creation_tokens = sql_sum (map t_cache_creation_tokens rows),
          w_cache_read_tokens = sql_sum (map t_cache_read_tokens rows),
          w_cost_usd = sql_sum (map cost_usd rows),
          oldest_turn = sql_min (map t_timestamp rows)\<rparr>)"

section \<open>Example inputs\<close>

text \<open>An assistant record with an id, a uuid, a timestamp and input and output counts.\<close>

definition assistant_line :: "string option \<Rightarrow> string \<Rightarrow> string \<Rightarrow> int \<Rightarrow> int \<Rightarrow> line" where
  "assistant_line mid uu ts i out =
     Object \<lparr>r_type = Some ''assistant'', r_uuid = Some uu, r_sessionId = Some ''s1'',
       r_timestamp = Some ts, r_cwd = None,
       r_message = Message \<lparr>m_id = mid, m_model = Some ''claude-opus-4-5'',
         m_usage = Usage [(''input_tokens'', Count i), (''output_tokens'', Count out)]\<rparr>\<rparr>"

text \<open>
  A log with a streamed response (\<^verbatim>\<open>msg_1\<close>, output counts 5 and then 40), a response
  without a message id, a blank line and a line that is not JSON; it has no user record.
\<close>

definition example_log :: "line list" where
  "example_log =
     [assistant_line (Some ''msg_1'') ''uuid-1'' ''2025-01-15T06:00:00.000Z'' 3 5,
      Blank,
      assistant_line None ''uuid-2'' ''2025-01-15T06:00:05.000Z'' 1 1,
      Invalid_JSON,
      assistant_line (Some ''msg_1'') ''uuid-3'' ''2025-01-15T06:00:09.000Z'' 3 40]"

text \<open>
  A log whose two assistant records share the id \<^verbatim>\<open>msg_1\<close> and have no tokens at all.
\<close>

definition zero_usage_log :: "line list" where
  "zero_usage_log =
     [assistant_line (Some ''msg_1'') ''uuid-1'' ''2025-01-15T06:00:00.000Z'' 0 0,
      assistant_line (Some ''msg_1'') ''uuid-2'' ''2025-01-15T06:00:09.000Z'' 0 0]"

text \<open>A Turn with an id, a session, a timestamp, a model, an output and a cache-read count.\<close>

definition example_turn :: "string \<Rightarrow> string \<Rightarrow> string \<Rightarrow> string \<Rightarrow> int \<Rightarrow> int \<Rightarrow> turn" where
  "example_turn mid sid ts mdl out cr =
     \<lparr>message_id = mid, outer_uuid = ''uuid'', session_id = sid,
      project_path = ''/home/u/proj'', timestamp = ts, model = mdl,
      input_tokens = 100, output_tokens = out, cache_creation_tokens = 0,
      cache_read_tokens = cr\<rparr>"

text \<open>
  Two batches for one session, the later Turn first: the second batch carries the earlier
  timestamp.
\<close>

definition out_of_order :: "turn list list" where
  "out_of_order =
     [[example_turn ''msg_1'' ''s1'' ''2025-01-15T10:00:00.000Z'' ''claude-sonnet-4-5'' 10 0],
      [example_turn ''msg_2'' ''s1'' ''2025-01-15T09:00:00.000Z'' ''claude-sonnet-4-5'' 10 0]]"

text \<open>
  Three Turns: two of session \<^verbatim>\<open>s1\<close>, the older on Sonnet and the newer on Opus, and a
  redelivery of the first message id under another session, \<^verbatim>\<open>s2\<close>.
\<close>

definition mixed :: "turn list" where
  "mixed =
     [example_turn ''msg_1'' ''s1'' ''2025-01-15T09:00:00.000Z'' ''claude-sonnet-4-5'' 10 0,
      example_turn ''msg_2'' ''s1'' ''2025-01-15T10:00:00.000Z'' ''claude-opus-4-5'' 20 0,
      example_turn ''msg_1'' ''s2'' ''2025-01-15T11:00:00.000Z'' ''claude-sonnet-4-5'' 10 0]"

text \<open>Three Turns of two sessions with different message ids.\<close>

definition two_sessions :: "turn list" where
  "two_sessions =
     [example_turn ''msg_1'' ''s1'' ''2025-01-15T09:00:00.000Z'' ''claude-sonnet-4-5'' 10 0,
      example_turn ''msg_2'' ''s2'' ''2025-01-15T11:00:00.000Z'' ''claude-haiku-4-5'' 5 0,
      example_turn ''msg_3'' ''s1'' ''2025-01-15T10:00:00.000Z'' ''claude-opus-4-5'' 20 0]"

section \<open>Auxiliary notions for the proofs about extraction\<close>

text \<open>The invariant of \<^verbatim>\<open>best\<close>: keys are pairwise different, and each Turn is stored under its own id.\<close>

definition wf_best :: "(string \<times> turn) list \<Rightarrow> bool" where
  "wf_best best \<longleftrightarrow> distinct (map fst best) \<and> (\<forall>(k, t) \<in> set best. message_id t = k)"

text \<open>What one record does to the entry of its own id.\<close>

fun pick :: "turn option \<Rightarrow> turn \<Rightarrow> turn option" where
  "pick None t = Some t"
| "pick (Some e) t = Some (if output_tokens t > output_tokens e then t else e)"

section \<open>Auxiliary notions for the proofs about the store\<close>

text \<open>The row stored under a key (the first one, the one an upsert finds).\<close>

definition session_of :: "string \<Rightarrow> session_row list \<Rightarrow> session_row option" where
  "session_of sid ss = find (\<lambda>r. s_session_id r = sid) ss"

definition turn_of :: "string \<Rightarrow> turn_row list \<Rightarrow> turn_row option" where
  "turn_of mid rs = find (\<lambda>r. t_message_id r = mid) rs"

text \<open>A table covers a Turn when upserting the Turn would change nothing.\<close>

definition session_covers :: "session_row list \<Rightarrow> turn \<Rightarrow> bool" where
  "session_covers ss t =
     (case session_of (session_id t) ss of
        None \<Rightarrow> False
      | Some r \<Rightarrow> timestamp t \<le> last_seen r)"

definition turn_covers :: "turn_row list \<Rightarrow> turn \<Rightarrow> bool" where
  "turn_covers rs t =
     (case turn_of (message_id t) rs of
        None \<Rightarrow> False
      | Some r \<Rightarrow>
          output_tokens t \<le> t_output_tokens r \<and>
          cache_creation_tokens t \<le> t_cache_creation_tokens r \<and>
          cache_read_tokens t \<le> t_cache_read_tokens r \<and>
          turn_cost t \<le> cost_usd r)"

text \<open>What one upsert does to the row of its own key.\<close>

fun merged :: "turn_row option \<Rightarrow> turn \<Rightarrow> turn_row option" where
  "merged None t = Some (inserted_turn t (turn_cost t))"
| "merged (Some r) t = Some (conflict_turn r t (turn_cost t))"

fun touched :: "session_row option \<Rightarrow> turn \<Rightarrow> session_row option" where
  "touched None t = Some (inserted_session t)"
| "touched (Some r) t = Some (conflict_session r t)"

text \<open>The rows of \<^verbatim>\<open>query_sessions\<close> before the order and before the limit, and before the limit.\<close>

definition listing_base :: "store \<Rightarrow> session_listing list" where
  "listing_base db = map (\<lambda>s. group_row s (joined db s))
             (filter (\<lambda>s. joined db s \<noteq> []) (sessions db))"

definition listing_all :: "store \<Rightarrow> session_listing list" where
  "listing_all db = rev (sort_key l_last_seen (listing_base db))"

section \<open>Properties of the pricing lookup\<close>

lemma prefix_scan_default:
  "\<forall>k \<in> fst ` set tbl. \<not> (startswith mdl k \<or> startswith k mdl)
   \<Longrightarrow> prefix_scan mdl tbl = DEFAULT"
  by (induction tbl) auto

lemma prefix_scan_first:
  "i < length tbl \<Longrightarrow>
   startswith mdl (fst (tbl ! i)) \<or> startswith (fst (tbl ! i)) mdl \<Longrightarrow>
   \<forall>j < i. \<not> (startswith mdl (fst (tbl ! j)) \<or> startswith (fst (tbl ! j)) mdl) \<Longrightarrow>
   prefix_scan mdl tbl = snd (tbl ! i)"
proof (induction tbl arbitrary: i)
  case Nil
  then show ?case by simp
next
  case (Cons e tbl)
  obtain key p where e: "e = (key, p)" by (cases e)
  show ?case
  proof (cases i)
    case 0
    with Cons.prems e show ?thesis by auto
  next
    case (Suc n)
    from Cons.prems(3) Suc have
      no: "\<not> (startswith mdl key \<or> startswith key mdl)"
      using e by force
    have later: "\<forall>j < n. \<not> (startswith mdl (fst (tbl ! j)) \<or> startswith (fst (tbl ! j)) mdl)"
    proof (intro allI impI)
      fix j assume "j < n"
      then have "Suc j < i" using Suc by simp
      with Cons.prems(3) show
        "\<not> (startswith mdl (fst (tbl ! j)) \<or> startswith (fst (tbl ! j)) mdl)"
        by fastforce
    qed
    from Cons.prems(1,2) Suc have "n < length tbl"
      and "startswith mdl (fst (tbl ! n)) \<or> startswith (fst (tbl ! n)) mdl"
      by simp_all
    from Cons.IH [OF this later] no e Suc show ?thesis by simp
  qed
qed

lemma distinct_PRICING: "distinct (map fst PRICING)"
  by (simp add: PRICING_def)

text \<open>
  C6. The pricing lookup is a total function of the mdl identifier alone (it reads
  nothing but the constant table, so it is deterministic and has no failing branch). It
  returns the table entry stored under exactly that identifier when there is one; otherwise
  the rates of the first entry, in table order, whose key is a prefix of the identifier or
  has the identifier as a prefix; otherwise the default tier.
\<close>

theorem get_pricing_policy:
  "((mdl, p) \<in> set PRICING \<longrightarrow> get_pricing mdl = p) \<and>
   (mdl \<notin> fst ` set PRICING \<and> i < length PRICING \<and>
      (prefix (fst (PRICING ! i)) mdl \<or> prefix mdl (fst (PRICING ! i))) \<and>
      (\<forall>j < i. \<not> (prefix (fst (PRICING ! j)) mdl \<or> prefix mdl (fst (PRICING ! j))))
      \<longrightarrow> get_pricing mdl = snd (PRICING ! i)) \<and>
   (mdl \<notin> fst ` set PRICING \<and>
      (\<forall>k \<in> fst ` set PRICING. \<not> (prefix k mdl \<or> prefix mdl k))
      \<longrightarrow> get_pricing mdl = DEFAULT)"
proof (intro conjI impI)
  assume "(mdl, p) \<in> set PRICING"
  then have "map_of PRICING mdl = Some p"
    using distinct_PRICING by simp
  then show "get_pricing mdl = p"
    by (simp add: get_pricing_def)
next
  assume a: "mdl \<notin> fst ` set PRICING \<and> i < length PRICING \<and>
      (prefix (fst (PRICING ! i)) mdl \<or> prefix mdl (fst (PRICING ! i))) \<and>
      (\<forall>j < i. \<not> (prefix (fst (PRICING ! j)) mdl \<or> prefix mdl (fst (PRICING ! j))))"
  then have none: "map_of PRICING mdl = None"
    by (simp add: map_of_eq_None_iff)
  have "prefix_scan mdl PRICING = snd (PRICING ! i)"
    using a by (intro prefix_scan_first) (auto simp: startswith_def)
  with none show "get_pricing mdl = snd (PRICING ! i)"
    by (simp add: get_pricing_def)
next
  assume a: "mdl \<notin> fst ` set PRICING \<and>
      (\<forall>k \<in> fst ` set PRICING. \<not> (prefix k mdl \<or> prefix mdl k))"
  then have none: "map_of PRICING mdl = None"
    by (simp add: map_of_eq_None_iff)
  have "prefix_scan mdl PRICING = DEFAULT"
    using a by (intro prefix_scan_default) (auto simp: startswith_def)
  with none show "get_pricing mdl = DEFAULT"
    by (simp add: get_pricing_def)
qed

theorem get_pricing_policy_witness:
  "get_pricing ''claude-opus-4-5'' = rates 15 75 18.75 1.5 \<and>
   get_pricing ''claude-sonnet-4-5-20250929'' = rates 3 15 3.75 0.3 \<and>
   get_pricing ''gpt-4'' = DEFAULT"
  using get_pricing_policy [of "''claude-opus-4-5''" "rates 15 75 18.75 1.5" 0]
    get_pricing_policy [of "''claude-sonnet-4-5-20250929''" "rates 3 15 3.75 0.3" 1]
    get_pricing_policy [of "''gpt-4''" "rates 3 15 3.75 0.3" 0]
  by (simp add: PRICING_def)

section \<open>Properties of the plan configuration\<close>

text \<open>
  What \<^verbatim>\<open>set_plan\<close> does in every state of the configuration file: an unknown plan raises
  \<^verbatim>\<open>ValueError\<close> and leaves the file as it was; a valid plan is written, and read back by
  \<^verbatim>\<open>get_plan\<close>, when the file is missing, is not JSON or holds an object; when the file holds
  another JSON value, a valid plan raises \<^verbatim>\<open>TypeError\<close> and the file stays as it was.
\<close>

lemma set_plan_outcomes:
  "set PLANS = {''pro'', ''max5'', ''max20''} \<and>
   (plan \<notin> set PLANS \<longrightarrow> set_plan plan f = (Inl (ValueError plan), f)) \<and>
   (plan \<in> set PLANS \<and> f \<noteq> Other_JSON \<longrightarrow>
      (\<exists>f'. set_plan plan f = (Inr (), f') \<and> get_plan f' = Inr (JStr plan))) \<and>
   (plan \<in> set PLANS \<and> f = Other_JSON \<longrightarrow> set_plan plan f = (Inl TypeError, f))"
  by (cases f) (auto simp add: set_plan_def PLANS_def PLAN_LIMITS_def get_plan_def save_def)

text \<open>
  C9. The claim is that a plan of the enumeration can be set in every state of the
  configuration. \<^verbatim>\<open>_load\<close> turns a missing file and a file that is not JSON into the empty
  dict, but hands on a JSON value that is not an object; on it, \<^verbatim>\<open>cfg["plan"] = plan\<close>
  raises \<^verbatim>\<open>TypeError\<close>. With such a file (\<^verbatim>\<open>[]\<close>, say), setting the valid plan \<^verbatim>\<open>pro\<close>
  fails, and the file is left as it was.
\<close>

theorem set_plan_fails_on_non_object_file:
  "''pro'' \<in> set PLANS \<and> set_plan ''pro'' Other_JSON = (Inl TypeError, Other_JSON)"
  by (simp add: set_plan_def PLANS_def PLAN_LIMITS_def)

section \<open>Properties of the extraction\<close>

subsection \<open>The dict of best Turns\<close>

lemma set_update_cases:
  "e \<in> set (AList.update k v al) \<Longrightarrow> e = (k, v) \<or> e \<in> set al"
  by (induction al) (auto split: if_splits)

lemma wf_best_update:
  "wf_best best \<Longrightarrow> wf_best (AList.update (message_id t) t best)"
  unfolding wf_best_def
  by (auto simp: distinct_update dest: set_update_cases)

lemma wf_best_keep: "wf_best best \<Longrightarrow> wf_best (keep_best t best)"
  by (auto simp: keep_best_def wf_best_update split: option.splits)

lemma wf_best_fold: "wf_best best \<Longrightarrow> wf_best (fold keep_best ts best)"
  by (induction ts arbitrary: best) (auto simp: wf_best_keep)

lemma map_of_keep_best:
  "map_of (keep_best t best) k =
     (if k = message_id t then pick (map_of best k) t else map_of best k)"
  by (auto simp: keep_best_def update_conv' split: option.splits)

lemma map_of_fold_keep_best:
  "map_of (fold keep_best ts best) k =
     fold (\<lambda>t acc. pick acc t) (filter (\<lambda>t. message_id t = k) ts) (map_of best k)"
  by (induction ts arbitrary: best) (auto simp: map_of_keep_best)

text \<open>
  Folding \<^const>\<open>pick\<close> over a non-empty group keeps the first record among those with the
  highest output count: every record before it has a strictly smaller count, every record
  after it a count that is not larger.
\<close>

lemma fold_pick_first_max:
  "grp \<noteq> [] \<Longrightarrow>
   \<exists>t pre post. fold (\<lambda>t acc. pick acc t) grp None = Some t \<and> grp = pre @ t # post \<and>
     (\<forall>u \<in> set pre. output_tokens u < output_tokens t) \<and>
     (\<forall>u \<in> set post. output_tokens u \<le> output_tokens t)"
proof (induction grp rule: rev_induct)
  case Nil
  then show ?case by simp
next
  case (snoc x grp)
  show ?case
  proof (cases "grp = []")
    case True
    then show ?thesis
      by (intro exI [of _ x] exI [of _ "[]"]) simp
  next
    case False
    with snoc.IH obtain t pre post where
      f: "fold (\<lambda>t acc. pick acc t) grp None = Some t" and g: "grp = pre @ t # post"
      and lo: "\<forall>u \<in> set pre. output_tokens u < output_tokens t"
      and hi: "\<forall>u \<in> set post. output_tokens u \<le> output_tokens t"
      by blast
    show ?thesis
    proof (cases "output_tokens x > output_tokens t")
      case True
      have "\<forall>u \<in> set grp. output_tokens u < output_tokens x"
        using g lo hi True by fastforce
      then show ?thesis using f True
        by (intro exI [of _ x] exI [of _ grp] exI [of _ "[]"]) simp
    next
      case False
      then show ?thesis using f g lo hi
        by (intro exI [of _ t] exI [of _ pre] exI [of _ "post @ [x]"]) auto
    qed
  qed
qed

lemma filter_values_by_key:
  "wf_best best \<Longrightarrow>
   filter (\<lambda>u. message_id u = k) (map snd best) =
     (case map_of best k of None \<Rightarrow> [] | Some t \<Rightarrow> [t])"
proof (induction best)
  case Nil
  then show ?case by simp
next
  case (Cons e best)
  obtain k' t' where e: "e = (k', t')" by (cases e)
  from Cons.prems have wf: "wf_best best" and id: "message_id t' = k'"
    and fresh: "k' \<notin> fst ` set best"
    by (auto simp: wf_best_def e)
  have none: "k = k' \<Longrightarrow> filter (\<lambda>u. message_id u = k) (map snd best) = []"
    using Cons.IH [OF wf] fresh by (simp add: map_of_eq_None_iff [THEN iffD2])
  show ?case using Cons.IH [OF wf] id none by (auto simp: e)
qed

subsection \<open>The code on the lines of the log format\<close>

lemma dict_get_count:
  "map_of u key \<noteq> Some Null_Count \<Longrightarrow>
   dict_get u key (Count 0) = Count (case map_of u key of Some (Count n) \<Rightarrow> n | _ \<Rightarrow> 0)"
  by (auto simp: dict_get_def split: option.splits count.splits)

lemma record_turn_well_shaped:
  assumes "well_shaped (Object obj)"
  shows "record_turn pp obj = Inr (if spec_kept obj then Some (spec_turn pp obj) else None)"
proof (cases "r_type obj = Some ''assistant''")
  case False
  then show ?thesis
    by (simp add: record_turn_def spec_kept_def spec_usage_def)
next
  case assistant: True
  show ?thesis
  proof (cases "r_message obj")
    case Message_Absent
    with assistant show ?thesis
      by (simp add: record_turn_def usage_turn_def spec_kept_def spec_usage_def)
  next
    case Message_Not_Object
    with assistant assms show ?thesis by simp
  next
    case (Message msg)
    show ?thesis
    proof (cases "m_usage msg")
      case Usage_Falsy
      with assistant Message show ?thesis
        by (simp add: record_turn_def usage_turn_def spec_kept_def spec_usage_def)
    next
      case Usage_Not_Object
      with assistant Message assms show ?thesis by simp
    next
      case (Usage u)
      with assistant Message assms
      have ints: "\<forall>key \<in> set token_keys. map_of u key \<noteq> Some Null_Count"
        by simp
      have su: "spec_usage obj = u"
        using assistant Message Usage by (simp add: spec_usage_def)
      have g: "dict_get u key (Count 0) = Count (spec_count obj key)"
        if "key \<in> set token_keys" for key
        using ints that by (simp add: dict_get_count spec_count_def su)
      have id: "spec_message_id obj =
          (case m_id msg of
             None \<Rightarrow> opt_get (r_uuid obj) []
           | Some i \<Rightarrow> if i = [] then opt_get (r_uuid obj) [] else i)"
        using Message by (auto simp: spec_message_id_def split: option.splits)
      show ?thesis
        using assistant Message Usage su id
        by (simp add: record_turn_def usage_turn_def g token_keys_def spec_kept_def
            spec_turn_def)
    qed
  qed
qed

lemma scan_lines_well_shaped:
  "\<forall>l \<in> set ls. well_shaped l \<Longrightarrow>
   scan_lines pp ls best = Inr (fold keep_best (map (spec_turn pp) (kept_records ls)) best)"
proof (induction ls arbitrary: best)
  case Nil
  show ?case by simp
next
  case (Cons l ls)
  then have rest: "\<And>b. scan_lines pp ls b = Inr (fold keep_best (map (spec_turn pp) (kept_records ls)) b)"
    by simp
  from Cons.prems have shaped: "well_shaped l" by simp
  show ?case
  proof (cases l)
    case (Object obj)
    with shaped have "record_turn pp obj = Inr (if spec_kept obj then Some (spec_turn pp obj) else None)"
      by (simp only: record_turn_well_shaped)
    with Object rest show ?thesis by simp
  qed (use shaped rest in simp_all)
qed

lemma group_of_fold:
  "filter (\<lambda>u. message_id u = mid) (map snd (fold keep_best ts [])) =
     (case fold (\<lambda>t acc. pick acc t) (filter (\<lambda>t. message_id t = mid) ts) None of
        None \<Rightarrow> [] | Some t \<Rightarrow> [t])"
proof -
  have "wf_best (fold keep_best ts [])"
    by (rule wf_best_fold) (simp add: wf_best_def)
  then show ?thesis
    by (simp add: filter_values_by_key map_of_fold_keep_best)
qed

lemma message_id_spec_turn [simp]: "message_id (spec_turn pp obj) = spec_message_id obj"
  by (simp add: spec_turn_def)

lemma output_tokens_spec_turn [simp]:
  "output_tokens (spec_turn pp obj) = spec_count obj ''output_tokens''"
  by (simp add: spec_turn_def)

lemma group_of_spec_turns:
  "filter (\<lambda>u. message_id u = mid) (map (spec_turn pp) recs) =
     map (spec_turn pp) (filter (\<lambda>obj. spec_message_id obj = mid) recs)"
  by (simp add: filter_map comp_def)

lemma example_log_well_shaped: "\<forall>l \<in> set example_log. well_shaped l"
  by (simp add: example_log_def assistant_line_def token_keys_def)

lemma iter_turns_example_log:
  "iter_turns (Some example_log) ''/home/u/proj'' =
     Inr [\<lparr>message_id = ''msg_1'', outer_uuid = ''uuid-3'', session_id = ''s1'',
           project_path = ''/home/u/proj'', timestamp = ''2025-01-15T06:00:09.000Z'',
           model = ''claude-opus-4-5'', input_tokens = 3, output_tokens = 40,
           cache_creation_tokens = 0, cache_read_tokens = 0\<rparr>,
          \<lparr>message_id = ''uuid-2'', outer_uuid = ''uuid-2'', session_id = ''s1'',
           project_path = ''/home/u/proj'', timestamp = ''2025-01-15T06:00:05.000Z'',
           model = ''claude-opus-4-5'', input_tokens = 1, output_tokens = 1,
           cache_creation_tokens = 0, cache_read_tokens = 0\<rparr>]"
  by (simp add: iter_turns_def example_log_def assistant_line_def record_turn_def
      usage_turn_def keep_best_def dict_get_def opt_get_def)

text \<open>
  C1, as the claim states it, fails. Extraction does not yield a Turn for every group of
  assistant records that share a message id: records without usage are filtered out first,
  so the two assistant records of \<^const>\<open>zero_usage_log\<close>, both of the id \<^verbatim>\<open>msg_1\<close>, yield
  no Turn. And it does not yield a Turn for every log file: on a line that is JSON but not
  an object the loop raises \<^verbatim>\<open>AttributeError\<close>, and the records of \<^const>\<open>example_log\<close>
  behind such a line yield nothing.
\<close>

theorem iter_turns_dedup_counterexample:
  "map (\<lambda>l. case l of Object obj \<Rightarrow> (r_type obj, spec_message_id obj) | _ \<Rightarrow> (None, []))
       zero_usage_log =
     [(Some ''assistant'', ''msg_1''), (Some ''assistant'', ''msg_1'')] \<and>
   iter_turns (Some zero_usage_log) ''/home/u/proj'' = Inr [] \<and>
   iter_turns (Some (Non_Object # example_log)) ''/home/u/proj'' = Inl AttributeError"
  by (simp add: zero_usage_log_def assistant_line_def spec_message_id_def iter_turns_def
      record_turn_def usage_turn_def dict_get_def)

text \<open>
  C1, amended. Take a log whose lines are blank, not JSON, or JSON objects of the log
  format (\<^const>\<open>well_shaped\<close>), and its kept records: the assistant records with a
  non-empty usage block and a non-zero total, in file order, grouped by the message id, or
  by the record's uuid when the message id is absent or empty. Extraction returns, and for
  the key of every group it yields exactly one Turn with that id. The Turn takes every
  field from one record of the group (\<^const>\<open>spec_turn\<close>): the record with the highest
  output count, and the first of them in the file when several reach that count. For a key
  of no kept record it yields no Turn.
\<close>

theorem iter_turns_dedup:
  assumes "\<forall>l \<in> set ls. well_shaped l"
  shows "\<exists>out. iter_turns (Some ls) pp = Inr out \<and>
     (mid \<in> spec_message_id ` set (kept_records ls) \<longrightarrow>
        (\<exists>pre obj post.
           filter (\<lambda>u. message_id u = mid) out = [spec_turn pp obj] \<and>
           filter (\<lambda>obj. spec_message_id obj = mid) (kept_records ls) = pre @ obj # post \<and>
           (\<forall>obj' \<in> set pre.
              spec_count obj' ''output_tokens'' < spec_count obj ''output_tokens'') \<and>
           (\<forall>obj' \<in> set post.
              spec_count obj' ''output_tokens'' \<le> spec_count obj ''output_tokens''))) \<and>
     (mid \<notin> spec_message_id ` set (kept_records ls) \<longrightarrow>
        filter (\<lambda>u. message_id u = mid) out = [])"
proof -
  let ?recs = "kept_records ls"
  let ?grp = "filter (\<lambda>obj. spec_message_id obj = mid) ?recs"
  let ?out = "map snd (fold keep_best (map (spec_turn pp) ?recs) [])"
  have out: "iter_turns (Some ls) pp = Inr ?out"
    by (simp add: iter_turns_def scan_lines_well_shaped [OF assms])
  have sel: "filter (\<lambda>u. message_id u = mid) ?out =
      (case fold (\<lambda>t acc. pick acc t) (map (spec_turn pp) ?grp) None of
         None \<Rightarrow> [] | Some t \<Rightarrow> [t])"
    by (simp only: group_of_fold group_of_spec_turns)
  have present: "\<exists>pre obj post.
           filter (\<lambda>u. message_id u = mid) ?out = [spec_turn pp obj] \<and>
           ?grp = pre @ obj # post \<and>
           (\<forall>obj' \<in> set pre.
              spec_count obj' ''output_tokens'' < spec_count obj ''output_tokens'') \<and>
           (\<forall>obj' \<in> set post.
              spec_count obj' ''output_tokens'' \<le> spec_count obj ''output_tokens'')"
    if "mid \<in> spec_message_id ` set ?recs"
  proof -
    from that have "map (spec_turn pp) ?grp \<noteq> []"
      by (auto simp: filter_empty_conv)
    from fold_pick_first_max [OF this] obtain t tpre tpost where
      f: "fold (\<lambda>t acc. pick acc t) (map (spec_turn pp) ?grp) None = Some t"
      and d: "map (spec_turn pp) ?grp = tpre @ t # tpost"
      and lo: "\<forall>u \<in> set tpre. output_tokens u < output_tokens t"
      and hi: "\<forall>u \<in> set tpost. output_tokens u \<le> output_tokens t"
      by blast
    from d obtain pre obj post where
      g: "?grp = pre @ obj # post" and tpre: "tpre = map (spec_turn pp) pre"
      and t: "t = spec_turn pp obj" and tpost: "tpost = map (spec_turn pp) post"
      by (auto simp: map_eq_append_conv map_eq_Cons_conv)
    have "\<forall>obj' \<in> set pre. spec_count obj' ''output_tokens'' < spec_count obj ''output_tokens''"
      using lo tpre t by simp
    moreover
    have "\<forall>obj' \<in> set post. spec_count obj' ''output_tokens'' \<le> spec_count obj ''output_tokens''"
      using hi tpost t by simp
    moreover have "filter (\<lambda>u. message_id u = mid) ?out = [spec_turn pp obj]"
      using sel f t by simp
    ultimately show ?thesis using g by blast
  qed
  have absent: "filter (\<lambda>u. message_id u = mid) ?out = []"
    if "mid \<notin> spec_message_id ` set ?recs"
  proof -
    from that have "?grp = []"
      by (auto simp: filter_empty_conv)
    with sel show ?thesis by simp
  qed
  from out present absent show ?thesis by blast
qed

theorem iter_turns_dedup_witness:
  "\<exists>out. iter_turns (Some example_log) ''/home/u/proj'' = Inr out \<and>
     filter (\<lambda>u. message_id u = ''msg_1'') out =
       [\<lparr>message_id = ''msg_1'', outer_uuid = ''uuid-3'', session_id = ''s1'',
         project_path = ''/home/u/proj'', timestamp = ''2025-01-15T06:00:09.000Z'',
         model = ''claude-opus-4-5'', input_tokens = 3, output_tokens = 40,
         cache_creation_tokens = 0, cache_read_tokens = 0\<rparr>] \<and>
     filter (\<lambda>u. message_id u = ''uuid-2'') out =
       [\<lparr>message_id = ''uuid-2'', outer_uuid = ''uuid-2'', session_id = ''s1'',
         project_path = ''/home/u/proj'', timestamp = ''2025-01-15T06:00:05.000Z'',
         model = ''claude-opus-4-5'', input_tokens = 1, output_tokens = 1,
         cache_creation_tokens = 0, cache_read_tokens = 0\<rparr>] \<and>
     filter (\<lambda>u. message_id u = ''msg_9'') out = []"
  using iter_turns_dedup [OF example_log_well_shaped, of "''/home/u/proj''" "''msg_1''"]
    iter_turns_dedup [OF example_log_well_shaped, of "''/home/u/proj''" "''uuid-2''"]
    iter_turns_dedup [OF example_log_well_shaped, of "''/home/u/proj''" "''msg_9''"]
  by (simp add: iter_turns_example_log)

text \<open>
  Outside the log format the loop does not return: a line that is not
  \<^const>\<open>well_shaped\<close> raises, wherever it stands in the file, and nothing is yielded.
\<close>

lemma build_turn_null:
  "a = Null_Count \<or> b = Null_Count \<or> c = Null_Count \<or> d = Null_Count \<Longrightarrow>
   build_turn pp obj msg a b c d = Inl TypeError"
  by (cases a; cases b; cases c; cases d) simp_all

lemma line_turn_raises: "\<not> well_shaped l \<Longrightarrow> \<exists>e. line_turn pp l = Inl e"
proof (cases l)
  case (Object obj)
  assume bad: "\<not> well_shaped l"
  with Object have assistant: "r_type obj = Some ''assistant''" by simp
  show ?thesis
  proof (cases "r_message obj")
    case Message_Absent
    with bad Object show ?thesis by simp
  next
    case Message_Not_Object
    with assistant Object show ?thesis by (simp add: record_turn_def)
  next
    case (Message msg)
    show ?thesis
    proof (cases "m_usage msg")
      case Usage_Falsy
      with bad Object Message show ?thesis by simp
    next
      case Usage_Not_Object
      with assistant Object Message show ?thesis
        by (simp add: record_turn_def usage_turn_def)
    next
      case (Usage u)
      with bad Object Message assistant obtain key where
        key: "key \<in> set token_keys" "map_of u key = Some Null_Count"
        by auto
      then have "u \<noteq> []" by auto
      moreover from key have
        "dict_get u ''input_tokens'' (Count 0) = Null_Count \<or>
         dict_get u ''output_tokens'' (Count 0) = Null_Count \<or>
         dict_get u ''cache_creation_input_tokens'' (Count 0) = Null_Count \<or>
         dict_get u ''cache_read_input_tokens'' (Count 0) = Null_Count"
        by (auto simp: token_keys_def dict_get_def)
      ultimately show ?thesis
        using assistant Object Message Usage
        by (simp add: record_turn_def usage_turn_def build_turn_null)
    qed
  qed
qed simp_all

lemma scan_lines_raises:
  "l \<in> set ls \<Longrightarrow> \<not> well_shaped l \<Longrightarrow> \<exists>e. scan_lines pp ls best = Inl e"
proof (induction ls arbitrary: best)
  case Nil
  then show ?case by simp
next
  case (Cons x ls)
  show ?case
  proof (cases "line_turn pp x")
    case (Inl e)
    then show ?thesis by simp
  next
    case (Inr r)
    with line_turn_raises [of x pp] have "well_shaped x" by auto
    with Cons.prems have "l \<in> set ls" by auto
    from Cons.IH [OF this Cons.prems(2)] Inr show ?thesis
      by (cases r) simp_all
  qed
qed

lemma iter_turns_raises:
  "l \<in> set ls \<Longrightarrow> \<not> well_shaped l \<Longrightarrow> \<exists>e. iter_turns (Some ls) pp = Inl e"
  using scan_lines_raises [of l ls pp "[]"] by (auto simp: iter_turns_def)

subsection \<open>The single-file scan\<close>

lemma first_user_cwd_no_user:
  "\<forall>obj. Object obj \<in> set ls \<longrightarrow> r_type obj \<noteq> Some ''user'' \<Longrightarrow>
   first_user_cwd ls = Inr [] \<or> first_user_cwd ls = Inl AttributeError"
  by (induction ls rule: first_user_cwd.induct) auto

lemma build_turn_project_path:
  "build_turn pp obj msg a b c d = Inr (Some t) \<Longrightarrow> project_path t = pp"
  by (cases a; cases b; cases c; cases d) (auto split: if_splits)

lemma record_turn_project_path: "record_turn pp obj = Inr (Some t) \<Longrightarrow> project_path t = pp"
  by (auto simp: record_turn_def usage_turn_def
      split: if_splits message_field.splits usage_field.splits
      dest: build_turn_project_path)

lemma line_turn_project_path: "line_turn pp l = Inr (Some t) \<Longrightarrow> project_path t = pp"
  by (cases l) (auto dest: record_turn_project_path)

lemma values_keep_best:
  "u \<in> snd ` set (keep_best t best) \<Longrightarrow> u = t \<or> u \<in> snd ` set best"
  by (auto simp: keep_best_def split: option.splits if_splits dest!: set_update_cases)

lemma values_fold_keep_best:
  "u \<in> snd ` set (fold keep_best ts best) \<Longrightarrow> u \<in> set ts \<or> u \<in> snd ` set best"
proof (induction ts arbitrary: best)
  case Nil
  then show ?case by simp
next
  case (Cons t ts)
  from Cons.IH [of "keep_best t best"] Cons.prems
  have "u \<in> set ts \<or> u \<in> snd ` set (keep_best t best)" by simp
  then show ?case using values_keep_best [of u t best] by auto
qed


lemma values_scan_lines:
  "scan_lines pp ls best = Inr best' \<Longrightarrow> u \<in> snd ` set best' \<Longrightarrow>
   project_path u = pp \<or> u \<in> snd ` set best"
proof (induction ls arbitrary: best)
  case Nil
  then show ?case by simp
next
  case (Cons l ls)
  show ?case
  proof (cases "line_turn pp l")
    case (Inl e)
    with Cons.prems show ?thesis by simp
  next
    case (Inr r)
    show ?thesis
    proof (cases r)
      case None
      with Inr Cons show ?thesis by simp
    next
      case (Some t)
      with Inr Cons.prems have "scan_lines pp ls (keep_best t best) = Inr best'" by simp
      from Cons.IH [OF this Cons.prems(2)]
      have "project_path u = pp \<or> u \<in> snd ` set (keep_best t best)" .
      moreover have "project_path t = pp"
        using Inr Some by (simp add: line_turn_project_path)
      ultimately show ?thesis
        using values_keep_best [of u t best] by auto
    qed
  qed
qed

lemma iter_turns_project_path:
  "t \<in> set (yielded (iter_turns f pp)) \<Longrightarrow> project_path t = pp"
proof (cases f)
  case None
  assume "t \<in> set (yielded (iter_turns f pp))"
  with None show ?thesis by (simp add: iter_turns_def)
next
  case (Some ls)
  assume t: "t \<in> set (yielded (iter_turns f pp))"
  show ?thesis
  proof (cases "scan_lines pp ls []")
    case (Inl e)
    with Some t show ?thesis by (simp add: iter_turns_def)
  next
    case (Inr best')
    with Some t have "t \<in> snd ` set best'" by (simp add: iter_turns_def)
    from values_scan_lines [OF Inr this] show ?thesis by simp
  qed
qed

text \<open>
  C10. When the read that resolves the working directory fails, or gives a log with no
  record of type \<^verbatim>\<open>user\<close>, every Turn that the single-file scan yields has the empty
  string as its project path: this path has no fallback to a directory name.
\<close>

theorem scan_session_turns_no_fallback:
  assumes "read_for_cwd = None \<or>
     (\<exists>ls. read_for_cwd = Some ls \<and>
        (\<forall>obj. Object obj \<in> set ls \<longrightarrow> r_type obj \<noteq> Some ''user''))"
  shows "\<forall>t \<in> set (yielded (scan_session_turns read_for_cwd read_for_turns)).
     project_path t = []"
proof -
  have "get_cwd_from_jsonl read_for_cwd = Inr [] \<or>
      get_cwd_from_jsonl read_for_cwd = Inl AttributeError"
  proof (cases read_for_cwd)
    case None
    then show ?thesis by (simp add: get_cwd_from_jsonl_def)
  next
    case (Some ls)
    with assms have "\<forall>obj. Object obj \<in> set ls \<longrightarrow> r_type obj \<noteq> Some ''user''"
      by simp
    from first_user_cwd_no_user [OF this] Some show ?thesis
      by (simp add: get_cwd_from_jsonl_def)
  qed
  then show ?thesis
    by (auto simp: scan_session_turns_def dest: iter_turns_project_path)
qed

theorem scan_session_turns_no_fallback_witness:
  "map project_path (yielded (scan_session_turns (Some example_log) (Some example_log)))
     = [[], []] \<and>
   map project_path (yielded (scan_session_turns None (Some example_log))) = [[], []]"
proof -
  have no_user: "Some example_log = None \<or>
     (\<exists>ls. Some example_log = Some ls \<and>
        (\<forall>obj. Object obj \<in> set ls \<longrightarrow> r_type obj \<noteq> Some ''user''))"
    by (auto simp: example_log_def assistant_line_def)
  have unreadable: "(None :: file_read) = None \<or>
     (\<exists>ls. None = Some ls \<and>
        (\<forall>obj. Object obj \<in> set ls \<longrightarrow> r_type obj \<noteq> Some ''user''))"
    by simp
  have cwd: "get_cwd_from_jsonl (Some example_log) = Inr []"
    by (simp add: get_cwd_from_jsonl_def example_log_def assistant_line_def)
  have two: "length (yielded (scan_session_turns r (Some example_log))) = 2"
    if "r = None \<or> r = Some example_log" for r
    using that cwd
    by (auto simp: scan_session_turns_def get_cwd_from_jsonl_def iter_turns_def
        example_log_def assistant_line_def record_turn_def usage_turn_def keep_best_def
        dict_get_def opt_get_def)
  have all_empty: "\<forall>t \<in> set ts. project_path t = [] \<Longrightarrow> length ts = 2
      \<Longrightarrow> map project_path ts = [[], []]" for ts :: "turn list"
    by (cases ts; cases "tl ts") auto
  show ?thesis
    using all_empty [OF scan_session_turns_no_fallback [OF no_user, of "Some example_log"] two]
      all_empty [OF scan_session_turns_no_fallback [OF unreadable, of "Some example_log"] two]
    by simp
qed

section \<open>Properties of the bulk upsert\<close>

lemma upsert_turns_bulk_fold_gen:
  "fold (\<lambda>t (con, count). (upsert_turn t con, count + 1)) ts (db, n)
     = (fold upsert_turn ts db, n + int (length ts))"
  by (induction ts arbitrary: db n) auto

lemma upsert_turns_bulk_fold:
  "upsert_turns_bulk ts db = (fold upsert_turn ts db, int (length ts))"
  by (simp add: upsert_turns_bulk_def upsert_turns_bulk_fold_gen)

lemma sessions_fold:
  "sessions (fold upsert_turn ts db) = fold upsert_session ts (sessions db)"
  by (induction ts arbitrary: db) (auto simp: upsert_turn_def Let_def)

lemma turns_fold:
  "turns (fold upsert_turn ts db) = fold (\<lambda>t. upsert_turn_row t (turn_cost t)) ts (turns db)"
  by (induction ts arbitrary: db) (auto simp: upsert_turn_def Let_def)

lemma session_of_upsert:
  "session_of sid (upsert_session t ss) =
     (if sid = session_id t
      then Some (case session_of sid ss of None \<Rightarrow> inserted_session t | Some r \<Rightarrow> conflict_session r t)
      else session_of sid ss)"
  by (induction ss) (auto simp: session_of_def inserted_session_def conflict_session_def)

lemma upsert_session_covered:
  "session_covers ss t \<Longrightarrow> upsert_session t ss = ss"
  by (induction ss)
     (auto simp: session_covers_def session_of_def conflict_session_def max_def split: option.splits)

lemma session_covers_upsert_self: "session_covers (upsert_session t ss) t"
  by (auto simp: session_covers_def session_of_upsert inserted_session_def conflict_session_def
      split: option.splits)

lemma session_covers_upsert_mono:
  "session_covers ss t \<Longrightarrow> session_covers (upsert_session u ss) t"
  by (auto simp: session_covers_def session_of_upsert conflict_session_def max_def
      split: option.splits)

lemma session_covers_fold_mono:
  "session_covers ss t \<Longrightarrow> session_covers (fold upsert_session us ss) t"
  by (induction us arbitrary: ss) (auto simp: session_covers_upsert_mono)

lemma session_covers_fold:
  "t \<in> set ts \<Longrightarrow> session_covers (fold upsert_session ts ss) t"
  by (induction ts arbitrary: ss)
     (auto simp: session_covers_fold_mono session_covers_upsert_self)

lemma fold_upsert_session_covered:
  "\<forall>t \<in> set ts. session_covers ss t \<Longrightarrow> fold upsert_session ts ss = ss"
  by (induction ts) (auto simp: upsert_session_covered)

lemma turn_of_upsert:
  "turn_of mid (upsert_turn_row t c rs) =
     (if mid = message_id t
      then Some (case turn_of mid rs of None \<Rightarrow> inserted_turn t c | Some r \<Rightarrow> conflict_turn r t c)
      else turn_of mid rs)"
  by (induction rs) (auto simp: turn_of_def inserted_turn_def conflict_turn_def)

lemma upsert_turn_row_covered:
  "turn_covers rs t \<Longrightarrow> upsert_turn_row t (turn_cost t) rs = rs"
  by (induction rs)
     (auto simp: turn_covers_def turn_of_def conflict_turn_def max_def split: option.splits)

lemma turn_covers_upsert_self: "turn_covers (upsert_turn_row t (turn_cost t) rs) t"
  by (auto simp: turn_covers_def turn_of_upsert inserted_turn_def conflict_turn_def
      split: option.splits)

lemma turn_covers_upsert_mono:
  "turn_covers rs t \<Longrightarrow> turn_covers (upsert_turn_row u c rs) t"
  by (auto simp: turn_covers_def turn_of_upsert conflict_turn_def max_def
      split: option.splits)

lemma turn_covers_fold_mono:
  "turn_covers rs t \<Longrightarrow> turn_covers (fold (\<lambda>t. upsert_turn_row t (turn_cost t)) us rs) t"
  by (induction us arbitrary: rs) (auto simp: turn_covers_upsert_mono)

lemma turn_covers_fold:
  "t \<in> set ts \<Longrightarrow> turn_covers (fold (\<lambda>t. upsert_turn_row t (turn_cost t)) ts rs) t"
  by (induction ts arbitrary: rs)
     (auto simp: turn_covers_fold_mono turn_covers_upsert_self)

lemma fold_upsert_turn_row_covered:
  "\<forall>t \<in> set ts. turn_covers rs t \<Longrightarrow> fold (\<lambda>t. upsert_turn_row t (turn_cost t)) ts rs = rs"
  by (induction ts) (auto simp: upsert_turn_row_covered)

lemma turn_of_upsert_merged:
  "turn_of mid (upsert_turn_row t (turn_cost t) rs) =
     (if mid = message_id t then merged (turn_of mid rs) t else turn_of mid rs)"
  by (cases "turn_of mid rs") (auto simp: turn_of_upsert)

lemma turn_of_fold:
  "turn_of mid (fold (\<lambda>t. upsert_turn_row t (turn_cost t)) ts rs) =
     fold (\<lambda>t acc. merged acc t) (filter (\<lambda>t. message_id t = mid) ts) (turn_of mid rs)"
  by (induction ts arbitrary: rs) (auto simp: turn_of_upsert_merged)

lemma fold_merged_Some:
  "fold (\<lambda>t acc. merged acc t) ts (Some r) =
     Some (r\<lparr>t_output_tokens := fold max (map output_tokens ts) (t_output_tokens r),
             t_cache_creation_tokens :=
               fold max (map cache_creation_tokens ts) (t_cache_creation_tokens r),
             t_cache_read_tokens := fold max (map cache_read_tokens ts) (t_cache_read_tokens r),
             cost_usd := fold max (map turn_cost ts) (cost_usd r)\<rparr>)"
proof (induction ts arbitrary: r)
  case Nil
  then show ?case by simp
next
  case (Cons t ts)
  show ?case
    by (simp add: Cons.IH conflict_turn_def max.commute)
qed

lemma fold_max_Max: "fold max xs (a::'a::linorder) = Max (set (a # xs))"
  by (simp only: Max.set_eq_fold)

lemma fold_max_ge: "(a::'a::linorder) \<le> fold max xs a"
  by (simp add: fold_max_Max)

text \<open>
  C2. When a row is stored under a message id, a bulk upsert of any list of Turns leaves
  under that id the same row with each of the output, cache-creation and cache-read counts
  and the cost replaced by the maximum of the stored value and the values of the incoming
  Turns with that id (for one incoming Turn: \<open>max existing incoming\<close>), each field on its
  own. The input count, like every other column, stays as first inserted, and none of the
  four merged fields decreases.
\<close>

theorem upsert_field_wise_max:
  assumes "turn_of mid (turns db) = Some r"
  shows "\<exists>r'. turn_of mid (turns (fst (upsert_turns_bulk ts db))) = Some r' \<and>
     r' = r\<lparr>t_output_tokens :=
               Max (set (t_output_tokens r # map output_tokens (filter (\<lambda>t. message_id t = mid) ts))),
             t_cache_creation_tokens :=
               Max (set (t_cache_creation_tokens r #
                 map cache_creation_tokens (filter (\<lambda>t. message_id t = mid) ts))),
             t_cache_read_tokens :=
               Max (set (t_cache_read_tokens r #
                 map cache_read_tokens (filter (\<lambda>t. message_id t = mid) ts))),
             cost_usd :=
               Max (set (cost_usd r # map turn_cost (filter (\<lambda>t. message_id t = mid) ts)))\<rparr> \<and>
     t_input_tokens r' = t_input_tokens r \<and>
     t_output_tokens r \<le> t_output_tokens r' \<and>
     t_cache_creation_tokens r \<le> t_cache_creation_tokens r' \<and>
     t_cache_read_tokens r \<le> t_cache_read_tokens r' \<and>
     cost_usd r \<le> cost_usd r'"
proof -
  let ?inc = "filter (\<lambda>t. message_id t = mid) ts"
  let ?r' = "r\<lparr>t_output_tokens := Max (set (t_output_tokens r # map output_tokens ?inc)),
             t_cache_creation_tokens :=
               Max (set (t_cache_creation_tokens r # map cache_creation_tokens ?inc)),
             t_cache_read_tokens :=
               Max (set (t_cache_read_tokens r # map cache_read_tokens ?inc)),
             cost_usd := Max (set (cost_usd r # map turn_cost ?inc))\<rparr>"
  have "turn_of mid (turns (fst (upsert_turns_bulk ts db))) =
      fold (\<lambda>t acc. merged acc t) ?inc (Some r)"
    using assms by (simp add: upsert_turns_bulk_fold turns_fold turn_of_fold)
  also have "\<dots> = Some ?r'"
    unfolding fold_merged_Some fold_max_Max ..
  finally have stored: "turn_of mid (turns (fst (upsert_turns_bulk ts db))) = Some ?r'" .
  have ge: "a \<le> Max (set (a # xs))" for a :: "'a::linorder" and xs
    by simp
  show ?thesis
    by (intro exI [of _ ?r'] conjI stored refl) (simp_all del: set_simps list.map add: ge)
qed

theorem upsert_field_wise_max_witness:
  "\<exists>r'. turn_of ''msg_1'' (turns (fst (upsert_turns_bulk
          [example_turn ''msg_1'' ''s1'' ''2025-01-15T06:00:09.000Z'' ''claude-sonnet-4-5'' 3 7]
          (fst (upsert_turns_bulk
             [example_turn ''msg_1'' ''s1'' ''2025-01-15T06:00:00.000Z'' ''claude-sonnet-4-5'' 10 0]
             init_db))))) = Some r' \<and>
     t_output_tokens r' = 10 \<and> t_cache_read_tokens r' = 7 \<and> t_input_tokens r' = 100"
proof -
  let ?A = "example_turn ''msg_1'' ''s1'' ''2025-01-15T06:00:00.000Z'' ''claude-sonnet-4-5'' 10 0"
  let ?B = "example_turn ''msg_1'' ''s1'' ''2025-01-15T06:00:09.000Z'' ''claude-sonnet-4-5'' 3 7"
  have stored: "turn_of ''msg_1'' (turns (fst (upsert_turns_bulk [?A] init_db)))
      = Some (inserted_turn ?A (turn_cost ?A))"
    by (simp add: upsert_turns_bulk_def upsert_turn_def init_db_def turn_of_def
        inserted_turn_def example_turn_def)
  show ?thesis
    using upsert_field_wise_max [OF stored, of "[?B]"]
    by (auto simp: inserted_turn_def example_turn_def)
qed

text \<open>
  C3. For every store and every list of Turns, a second bulk upsert of the same list leaves
  both tables exactly as the first one left them.
\<close>

theorem upsert_turns_bulk_idempotent:
  "fst (upsert_turns_bulk ts (fst (upsert_turns_bulk ts db))) = fst (upsert_turns_bulk ts db)"
proof -
  let ?db = "fold upsert_turn ts db"
  have s: "sessions (fold upsert_turn ts ?db) = sessions ?db"
    unfolding sessions_fold [of ts ?db]
    by (rule fold_upsert_session_covered) (simp add: sessions_fold session_covers_fold)
  have t: "turns (fold upsert_turn ts ?db) = turns ?db"
    unfolding turns_fold [of ts ?db]
    by (rule fold_upsert_turn_row_covered) (simp add: turns_fold turn_covers_fold)
  have "fold upsert_turn ts ?db = ?db"
    using s t by (auto intro: store.equality)
  then show ?thesis by (simp add: upsert_turns_bulk_fold)
qed

theorem upsert_turns_bulk_idempotent_witness:
  "fst (upsert_turns_bulk
     [example_turn ''msg_1'' ''s1'' ''2025-01-15T06:00:09.000Z'' ''claude-sonnet-4-5'' 3 7,
      example_turn ''msg_1'' ''s1'' ''2025-01-15T06:00:00.000Z'' ''claude-sonnet-4-5'' 10 0]
     (fst (upsert_turns_bulk
        [example_turn ''msg_1'' ''s1'' ''2025-01-15T06:00:09.000Z'' ''claude-sonnet-4-5'' 3 7,
         example_turn ''msg_1'' ''s1'' ''2025-01-15T06:00:00.000Z'' ''claude-sonnet-4-5'' 10 0]
        init_db)))
   = \<lparr>sessions =
        [\<lparr>s_session_id = ''s1'', s_project_path = ''/home/u/proj'',
          first_seen = ''2025-01-15T06:00:09.000Z'', last_seen = ''2025-01-15T06:00:09.000Z''\<rparr>],
      turns =
        [\<lparr>t_message_id = ''msg_1'', t_session_id = ''s1'',
          t_timestamp = ''2025-01-15T06:00:09.000Z'', t_model = ''claude-sonnet-4-5'',
          t_input_tokens = 100, t_output_tokens = 10, t_cache_creation_tokens = 0,
          t_cache_read_tokens = 7, cost_usd = 9 / 20000\<rparr>]\<rparr>"
  using upsert_turns_bulk_idempotent
    [of "[example_turn ''msg_1'' ''s1'' ''2025-01-15T06:00:09.000Z'' ''claude-sonnet-4-5'' 3 7,
          example_turn ''msg_1'' ''s1'' ''2025-01-15T06:00:00.000Z'' ''claude-sonnet-4-5'' 10 0]"
       init_db]
  by (simp add: upsert_turns_bulk_def upsert_turn_def inserted_turn_def conflict_turn_def
      inserted_session_def conflict_session_def init_db_def example_turn_def turn_cost_def
      calculate_cost_def get_pricing_def PRICING_def rates_def)

section \<open>Properties of the session rows\<close>

lemma upsert_batches_concat:
  "upsert_batches batches db = fold upsert_turn (concat batches) db"
  by (induction batches arbitrary: db)
     (auto simp: upsert_batches_def upsert_turns_bulk_fold)

lemma session_of_upsert_touched:
  "session_of sid (upsert_session t ss) =
     (if sid = session_id t then touched (session_of sid ss) t else session_of sid ss)"
  by (cases "session_of sid ss") (auto simp: session_of_upsert)

lemma session_of_fold:
  "session_of sid (fold upsert_session ts ss) =
     fold (\<lambda>t acc. touched acc t) (filter (\<lambda>t. session_id t = sid) ts) (session_of sid ss)"
  by (induction ts arbitrary: ss) (auto simp: session_of_upsert_touched)

lemma fold_touched_Some:
  "fold (\<lambda>t acc. touched acc t) ts (Some r) =
     Some (r\<lparr>last_seen := fold max (map timestamp ts) (last_seen r)\<rparr>)"
  by (induction ts arbitrary: r) (auto simp: conflict_session_def max.commute)

lemma session_ids_upsert:
  "s_session_id ` set (upsert_session t ss) = insert (session_id t) (s_session_id ` set ss)"
  by (induction ss) (auto simp: inserted_session_def conflict_session_def)

lemma distinct_upsert_session:
  "distinct (map s_session_id ss) \<Longrightarrow> distinct (map s_session_id (upsert_session t ss))"
proof (induction ss)
  case Nil
  then show ?case by simp
next
  case (Cons r rs)
  then show ?case
    using session_ids_upsert [of t rs]
    by (auto simp: conflict_session_def)
qed

lemma distinct_fold_upsert_session:
  "distinct (map s_session_id ss) \<Longrightarrow> distinct (map s_session_id (fold upsert_session ts ss))"
  by (induction ts arbitrary: ss) (auto simp: distinct_upsert_session)

lemma session_of_member:
  "distinct (map s_session_id ss) \<Longrightarrow> sr \<in> set ss \<Longrightarrow> session_of (s_session_id sr) ss = Some sr"
  by (induction ss) (auto simp: session_of_def)

lemma sessions_out_of_order:
  "sessions (upsert_batches out_of_order init_db) =
     [\<lparr>s_session_id = ''s1'', s_project_path = ''/home/u/proj'',
       first_seen = ''2025-01-15T10:00:00.000Z'', last_seen = ''2025-01-15T10:00:00.000Z''\<rparr>]"
  by (simp add: out_of_order_def upsert_batches_def upsert_turns_bulk_def upsert_turn_def
      inserted_session_def conflict_session_def init_db_def example_turn_def)

lemma group_out_of_order:
  "filter (\<lambda>t. session_id t = ''s1'') (concat out_of_order) =
     [example_turn ''msg_1'' ''s1'' ''2025-01-15T10:00:00.000Z'' ''claude-sonnet-4-5'' 10 0,
      example_turn ''msg_2'' ''s1'' ''2025-01-15T09:00:00.000Z'' ''claude-sonnet-4-5'' 10 0]"
  by (simp add: out_of_order_def example_turn_def)

text \<open>
  C4, as the claim states it, fails: \<^verbatim>\<open>first_seen\<close> is written at the insert of the session
  row and never again, so it is the timestamp of the first Turn upserted for the session,
  which is not the minimum when a Turn with an earlier timestamp is upserted later. Here
  the session keeps \<^verbatim>\<open>first_seen\<close> at 10:00 although a Turn of 09:00 was upserted for it.
\<close>

theorem session_bounds_counterexample:
  "map first_seen (sessions (upsert_batches out_of_order init_db)) = [''2025-01-15T10:00:00.000Z''] \<and>
   Min (set (map timestamp (filter (\<lambda>t. session_id t = ''s1'') (concat out_of_order))))
     = ''2025-01-15T09:00:00.000Z''"
  unfolding group_out_of_order sessions_out_of_order
  by (simp add: example_turn_def)

text \<open>
  C4, amended. Start from the empty store and run any sequence of bulk upserts. For every
  session row, some Turn was upserted for that session; \<^verbatim>\<open>last_seen\<close> is the maximum of the
  timestamps of all Turns upserted for the session, whatever their order; \<^verbatim>\<open>first_seen\<close> is
  the timestamp of the first of them in upsert order; and \<^verbatim>\<open>first_seen\<close> is at most
  \<^verbatim>\<open>last_seen\<close>.
\<close>

theorem session_bounds:
  assumes "sr \<in> set (sessions (upsert_batches batches init_db))"
  shows "filter (\<lambda>t. session_id t = s_session_id sr) (concat batches) \<noteq> [] \<and>
     first_seen sr =
       timestamp (hd (filter (\<lambda>t. session_id t = s_session_id sr) (concat batches))) \<and>
     last_seen sr =
       Max (set (map timestamp (filter (\<lambda>t. session_id t = s_session_id sr) (concat batches)))) \<and>
     first_seen sr \<le> last_seen sr"
proof -
  let ?g = "filter (\<lambda>t. session_id t = s_session_id sr) (concat batches)"
  let ?ss = "fold upsert_session (concat batches) []"
  have ss: "sessions (upsert_batches batches init_db) = ?ss"
    by (simp add: upsert_batches_concat sessions_fold init_db_def)
  have "distinct (map s_session_id ?ss)"
    by (rule distinct_fold_upsert_session) simp
  with assms ss have "session_of (s_session_id sr) ?ss = Some sr"
    by (simp add: session_of_member)
  moreover have "session_of (s_session_id sr) [] = None"
    by (simp add: session_of_def)
  ultimately have run: "fold (\<lambda>t acc. touched acc t) ?g None = Some sr"
    by (simp add: session_of_fold)
  show ?thesis
  proof (cases ?g)
    case Nil
    with run show ?thesis by simp
  next
    case (Cons t0 rest)
    with run have sr: "sr = (inserted_session t0)\<lparr>last_seen :=
        fold max (map timestamp rest) (last_seen (inserted_session t0))\<rparr>"
      by (simp add: fold_touched_Some)
    have last: "last_seen sr = Max (set (map timestamp (t0 # rest)))"
      by (subst sr) (simp add: inserted_session_def fold_max_Max del: set_simps list.map, simp)
    have first: "first_seen sr = timestamp t0"
      by (subst sr) (simp add: inserted_session_def)
    have "timestamp t0 \<le> Max (set (map timestamp (t0 # rest)))"
      by simp
    with last first Cons show ?thesis by simp
  qed
qed

theorem session_bounds_witness:
  "filter (\<lambda>t. session_id t = ''s1'') (concat out_of_order) \<noteq> [] \<and>
   map first_seen (sessions (upsert_batches out_of_order init_db)) =
     [timestamp (hd (filter (\<lambda>t. session_id t = ''s1'') (concat out_of_order)))] \<and>
   map last_seen (sessions (upsert_batches out_of_order init_db)) =
     [Max (set (map timestamp (filter (\<lambda>t. session_id t = ''s1'') (concat out_of_order))))]"
proof -
  let ?sr = "\<lparr>s_session_id = ''s1'', s_project_path = ''/home/u/proj'',
       first_seen = ''2025-01-15T10:00:00.000Z'', last_seen = ''2025-01-15T10:00:00.000Z''\<rparr>"
  have "?sr \<in> set (sessions (upsert_batches out_of_order init_db))"
    by (simp add: sessions_out_of_order)
  from session_bounds [OF this] show ?thesis
    by (simp add: sessions_out_of_order group_out_of_order example_turn_def)
qed

section \<open>Properties of the per-session listing\<close>

lemma l_session_id_group_row [simp]: "l_session_id (group_row s g) = s_session_id s"
  by (simp add: group_row_def)

lemma l_last_seen_group_row [simp]: "l_last_seen (group_row s g) = last_seen s"
  by (simp add: group_row_def)

lemma set_sql_limit: "set (sql_limit n xs) \<subseteq> set xs"
  by (auto simp: sql_limit_def dest: in_set_takeD)

lemma sql_max_Max: "xs \<noteq> [] \<Longrightarrow> sql_max xs = Some (Max (set xs))"
proof (cases xs)
  case Nil
  assume "xs \<noteq> []"
  with Nil show ?thesis by simp
next
  case (Cons a list)
  show ?thesis
    unfolding Cons sql_max.simps fold_max_Max ..
qed

lemma sql_sum_sum_list: "xs \<noteq> [] \<Longrightarrow> sql_sum xs = Some (sum_list xs)"
  by (cases xs) simp_all

lemma query_sessions_alt: "query_sessions limit db = sql_limit limit (listing_all db)"
  by (simp add: query_sessions_def listing_all_def listing_base_def)

lemma ids_listing_base:
  "map l_session_id (listing_base db) =
     map s_session_id (filter (\<lambda>s. joined db s \<noteq> []) (sessions db))"
  by (simp add: listing_base_def comp_def)

lemma distinct_listing_base:
  "distinct (map s_session_id (sessions db)) \<Longrightarrow> distinct (map l_session_id (listing_base db))"
  by (simp add: ids_listing_base distinct_map_filter)

lemma distinct_listing_all:
  assumes "distinct (map s_session_id (sessions db))"
  shows "distinct (map l_session_id (listing_all db))"
proof -
  from distinct_listing_base [OF assms]
  have "distinct (listing_base db)" "inj_on l_session_id (set (listing_base db))"
    by (simp_all add: distinct_map)
  then show ?thesis
    by (simp add: listing_all_def distinct_map)
qed

lemma sorted_listing_all: "sorted_wrt (\<ge>) (map l_last_seen (listing_all db))"
proof -
  have "sorted (map l_last_seen (sort_key l_last_seen (listing_base db)))"
    by (rule sorted_sort_key)
  then have "sorted_wrt (\<ge>) (rev (map l_last_seen (sort_key l_last_seen (listing_base db))))"
    by (simp add: sorted_wrt_rev)
  then show ?thesis by (simp add: listing_all_def rev_map)
qed

lemma sorted_wrt_take_drop:
  "sorted_wrt P xs \<Longrightarrow> x \<in> set (take n xs) \<Longrightarrow> y \<in> set (drop n xs) \<Longrightarrow> P x y"
proof -
  assume "sorted_wrt P xs" "x \<in> set (take n xs)" "y \<in> set (drop n xs)"
  moreover have "xs = take n xs @ drop n xs" by simp
  ultimately show ?thesis
    by (metis sorted_wrt_append)
qed


lemma store_mixed:
  "fst (upsert_turns_bulk mixed init_db) =
    \<lparr>sessions =
      [\<lparr>s_session_id = ''s1'', s_project_path = ''/home/u/proj'',
          first_seen = ''2025-01-15T09:00:00.000Z'',
          last_seen = ''2025-01-15T10:00:00.000Z''\<rparr>,
       \<lparr>s_session_id = ''s2'', s_project_path = ''/home/u/proj'',
          first_seen = ''2025-01-15T11:00:00.000Z'',
          last_seen = ''2025-01-15T11:00:00.000Z''\<rparr>],
     turns =
      [\<lparr>t_message_id = ''msg_1'', t_session_id = ''s1'',
          t_timestamp = ''2025-01-15T09:00:00.000Z'',
          t_model = ''claude-sonnet-4-5'', t_input_tokens = 100,
          t_output_tokens = 10, t_cache_creation_tokens = 0,
          t_cache_read_tokens = 0, cost_usd = 9 / 20000\<rparr>,
       \<lparr>t_message_id = ''msg_2'', t_session_id = ''s1'',
          t_timestamp = ''2025-01-15T10:00:00.000Z'',
          t_model = ''claude-opus-4-5'', t_input_tokens = 100,
          t_output_tokens = 20, t_cache_creation_tokens = 0,
          t_cache_read_tokens = 0, cost_usd = 3 / 1000\<rparr>]\<rparr>"
  by (simp add: mixed_def upsert_turns_bulk_def upsert_turn_def inserted_turn_def
      conflict_turn_def inserted_session_def conflict_session_def init_db_def example_turn_def
      turn_cost_def calculate_cost_def get_pricing_def PRICING_def rates_def)

lemma store_two_sessions:
  "fst (upsert_turns_bulk two_sessions init_db) =
    \<lparr>sessions =
      [\<lparr>s_session_id = ''s1'', s_project_path = ''/home/u/proj'',
          first_seen = ''2025-01-15T09:00:00.000Z'',
          last_seen = ''2025-01-15T10:00:00.000Z''\<rparr>,
       \<lparr>s_session_id = ''s2'', s_project_path = ''/home/u/proj'',
          first_seen = ''2025-01-15T11:00:00.000Z'',
          last_seen = ''2025-01-15T11:00:00.000Z''\<rparr>],
     turns =
      [\<lparr>t_message_id = ''msg_1'', t_session_id = ''s1'',
          t_timestamp = ''2025-01-15T09:00:00.000Z'',
          t_model = ''claude-sonnet-4-5'', t_input_tokens = 100,
          t_output_tokens = 10, t_cache_creation_tokens = 0,
          t_cache_read_tokens = 0, cost_usd = 9 / 20000\<rparr>,
       \<lparr>t_message_id = ''msg_2'', t_session_id = ''s2'',
          t_timestamp = ''2025-01-15T11:00:00.000Z'',
          t_model = ''claude-haiku-4-5'', t_input_tokens = 100,
          t_output_tokens = 5, t_cache_creation_tokens = 0,
          t_cache_read_tokens = 0, cost_usd = 1 / 10000\<rparr>,
       \<lparr>t_message_id = ''msg_3'', t_session_id = ''s1'',
          t_timestamp = ''2025-01-15T10:00:00.000Z'',
          t_model = ''claude-opus-4-5'', t_input_tokens = 100,
          t_output_tokens = 20, t_cache_creation_tokens = 0,
          t_cache_read_tokens = 0, cost_usd = 3 / 1000\<rparr>]\<rparr>"
  by (simp add: two_sessions_def upsert_turns_bulk_def upsert_turn_def inserted_turn_def
      conflict_turn_def inserted_session_def conflict_session_def init_db_def example_turn_def
      turn_cost_def calculate_cost_def get_pricing_def PRICING_def rates_def)

text \<open>
  C8, as the claim states it, fails. The column \<^verbatim>\<open>model\<close> is \<^verbatim>\<open>MAX(t.model)\<close>, the greatest
  model identifier of the session's turns in text order, not the model of its most recent
  turn: below, session \<^verbatim>\<open>s1\<close> used Sonnet at 09:00 and Opus at 10:00, and is listed with
  Sonnet. The join is an inner join, so a session without a turn row has no row in the
  listing: \<^verbatim>\<open>s2\<close>, whose only Turn redelivered a message id stored under \<^verbatim>\<open>s1\<close>, is
  missing. And a negative limit is no limit.
\<close>

theorem query_sessions_counterexample:
  "map (\<lambda>t. (t_session_id t, t_timestamp t, t_model t))
       (turns (fst (upsert_turns_bulk mixed init_db))) =
     [(''s1'', ''2025-01-15T09:00:00.000Z'', ''claude-sonnet-4-5''),
      (''s1'', ''2025-01-15T10:00:00.000Z'', ''claude-opus-4-5'')] \<and>
   map s_session_id (sessions (fst (upsert_turns_bulk mixed init_db))) = [''s1'', ''s2''] \<and>
   map (\<lambda>row. (l_session_id row, l_model row))
       (query_sessions 200 (fst (upsert_turns_bulk mixed init_db))) =
     [(''s1'', Some ''claude-sonnet-4-5'')] \<and>
   length (query_sessions (- 1) (fst (upsert_turns_bulk mixed init_db))) = 1"
  unfolding store_mixed
  by (simp add: query_sessions_def sql_limit_def joined_def group_row_def)

text \<open>
  C8, amended. In a store whose session ids are pairwise different (the primary key), the
  listing has at most one row per session, and each row belongs to a session with at least
  one turn row and carries that session's aggregate (the number of its turns, the sums of
  its counts and cost) together with the greatest model identifier among its turns, in
  text order. The rows are ordered by \<^verbatim>\<open>last_seen\<close>, latest first. A session with a turn
  row is left out only when the limit is reached, and then every listed row is at least as
  recent. With a non-negative limit the listing has at most that many rows.
\<close>

theorem query_sessions_listing:
  assumes "distinct (map s_session_id (sessions db))"
  shows "distinct (map l_session_id (query_sessions limit db)) \<and>
     (\<forall>row \<in> set (query_sessions limit db).
        \<exists>s \<in> set (sessions db).
          joined db s \<noteq> [] \<and>
          row = group_row s (joined db s) \<and>
          l_session_id row = s_session_id s \<and>
          l_turns row = int (length (joined db s)) \<and>
          l_output_tokens row = Some (sum_list (map t_output_tokens (joined db s))) \<and>
          l_cost_usd row = Some (sum_list (map cost_usd (joined db s))) \<and>
          l_model row = Some (Max (set (map t_model (joined db s))))) \<and>
     sorted_wrt (\<ge>) (map l_last_seen (query_sessions limit db)) \<and>
     (\<forall>s \<in> set (sessions db). joined db s \<noteq> [] \<longrightarrow>
        s_session_id s \<in> l_session_id ` set (query_sessions limit db) \<or>
        (0 \<le> limit \<and> length (query_sessions limit db) = nat limit \<and>
         (\<forall>row \<in> set (query_sessions limit db). last_seen s \<le> l_last_seen row))) \<and>
     (0 \<le> limit \<longrightarrow> length (query_sessions limit db) \<le> nat limit)"
proof (intro conjI ballI impI)
  show "distinct (map l_session_id (query_sessions limit db))"
    using distinct_listing_all [OF assms]
    by (auto simp: query_sessions_alt sql_limit_def take_map [symmetric] intro: distinct_take)
next
  fix row assume "row \<in> set (query_sessions limit db)"
  then have "row \<in> set (listing_base db)"
    using set_sql_limit [of limit "listing_all db"]
    by (auto simp: query_sessions_alt listing_all_def)
  then obtain s where s: "s \<in> set (sessions db)" "joined db s \<noteq> []"
    and row: "row = group_row s (joined db s)"
    by (auto simp: listing_base_def)
  have "l_turns row = int (length (joined db s))"
    "l_output_tokens row = Some (sum_list (map t_output_tokens (joined db s)))"
    "l_cost_usd row = Some (sum_list (map cost_usd (joined db s)))"
    "l_model row = Some (Max (set (map t_model (joined db s))))"
    using s(2) by (simp_all add: row group_row_def sql_sum_sum_list sql_max_Max)
  with s row show "\<exists>s \<in> set (sessions db).
          joined db s \<noteq> [] \<and>
          row = group_row s (joined db s) \<and>
          l_session_id row = s_session_id s \<and>
          l_turns row = int (length (joined db s)) \<and>
          l_output_tokens row = Some (sum_list (map t_output_tokens (joined db s))) \<and>
          l_cost_usd row = Some (sum_list (map cost_usd (joined db s))) \<and>
          l_model row = Some (Max (set (map t_model (joined db s))))"
    by (intro bexI [of _ s]) simp_all
next
  show "sorted_wrt (\<ge>) (map l_last_seen (query_sessions limit db))"
    using sorted_listing_all [of db]
    by (auto simp: query_sessions_alt sql_limit_def take_map [symmetric] intro: sorted_wrt_take)
next
  fix s assume s: "s \<in> set (sessions db)" "joined db s \<noteq> []"
  let ?row = "group_row s (joined db s)"
  from s have mem: "?row \<in> set (listing_all db)"
    by (auto simp: listing_all_def listing_base_def)
  show "s_session_id s \<in> l_session_id ` set (query_sessions limit db) \<or>
        (0 \<le> limit \<and> length (query_sessions limit db) = nat limit \<and>
         (\<forall>row \<in> set (query_sessions limit db). last_seen s \<le> l_last_seen row))"
  proof (cases "?row \<in> set (query_sessions limit db)")
    case True
    then have "l_session_id ?row \<in> l_session_id ` set (query_sessions limit db)"
      by (rule imageI)
    then show ?thesis by simp
  next
    case False
    then have lim: "0 \<le> limit" and out: "?row \<notin> set (take (nat limit) (listing_all db))"
      using mem by (auto simp: query_sessions_alt sql_limit_def split: if_splits)
    from mem out have dropped: "?row \<in> set (drop (nat limit) (listing_all db))"
      by (metis Un_iff append_take_drop_id set_append)
    then have "nat limit < length (listing_all db)"
      by (cases "nat limit < length (listing_all db)") auto
    then have len: "length (query_sessions limit db) = nat limit"
      using lim by (simp add: query_sessions_alt sql_limit_def)
    have "last_seen s \<le> l_last_seen row" if "row \<in> set (query_sessions limit db)" for row
    proof -
      from that lim have "l_last_seen row \<in> set (take (nat limit) (map l_last_seen (listing_all db)))"
        by (simp add: query_sessions_alt sql_limit_def take_map)
      moreover from dropped
      have "l_last_seen ?row \<in> set (drop (nat limit) (map l_last_seen (listing_all db)))"
        unfolding drop_map set_map by (rule imageI)
      ultimately have "l_last_seen row \<ge> l_last_seen ?row"
        using sorted_wrt_take_drop [OF sorted_listing_all [of db]] by blast
      then show ?thesis by simp
    qed
    with lim len show ?thesis by blast
  qed
next
  assume "0 \<le> limit"
  then show "length (query_sessions limit db) \<le> nat limit"
    by (simp add: query_sessions_alt sql_limit_def)
qed

theorem query_sessions_listing_witness:
  "distinct (map s_session_id (sessions (fst (upsert_turns_bulk two_sessions init_db)))) \<and>
   map (\<lambda>row. (l_session_id row, l_last_seen row, l_turns row, l_output_tokens row, l_model row))
       (query_sessions 200 (fst (upsert_turns_bulk two_sessions init_db))) =
     [(''s2'', ''2025-01-15T11:00:00.000Z'', 1, Some 5, Some ''claude-haiku-4-5''),
      (''s1'', ''2025-01-15T10:00:00.000Z'', 2, Some 30, Some ''claude-sonnet-4-5'')] \<and>
   distinct (map l_session_id (query_sessions 200 (fst (upsert_turns_bulk two_sessions init_db)))) \<and>
   sorted_wrt (\<ge>)
     (map l_last_seen (query_sessions 200 (fst (upsert_turns_bulk two_sessions init_db)))) \<and>
   length (query_sessions 1 (fst (upsert_turns_bulk two_sessions init_db))) \<le> 1"
proof -
  have keys: "distinct (map s_session_id (sessions (fst (upsert_turns_bulk two_sessions init_db))))"
    unfolding store_two_sessions by simp
  have rows: "map (\<lambda>row. (l_session_id row, l_last_seen row, l_turns row, l_output_tokens row, l_model row))
       (query_sessions 200 (fst (upsert_turns_bulk two_sessions init_db))) =
     [(''s2'', ''2025-01-15T11:00:00.000Z'', 1, Some 5, Some ''claude-haiku-4-5''),
      (''s1'', ''2025-01-15T10:00:00.000Z'', 2, Some 30, Some ''claude-sonnet-4-5'')]"
    unfolding store_two_sessions
    by (simp add: query_sessions_def sql_limit_def joined_def group_row_def)
  show ?thesis
    using keys rows query_sessions_listing [OF keys, of 200] query_sessions_listing [OF keys, of 1]
    by simp
qed

section \<open>The rolling window at noon\<close>

lemma noon_cutoff: "sqlite_datetime (1736942400 - int 5 * 3600) = ''2025-01-15 07:00:00''"
  by code_simp

lemma six_hours_before_noon: "iso8601_utc (1736942400 - 6 * 3600) = ''2025-01-15T06:00:00.000Z''"
  by code_simp

lemma store_six_hours_old:
  "turns (fst (upsert_turns_bulk
      [example_turn ''msg_1'' ''s1'' ''2025-01-15T06:00:00.000Z'' ''claude-sonnet-4-5'' 10 0]
      init_db)) =
     [\<lparr>t_message_id = ''msg_1'', t_session_id = ''s1'',
       t_timestamp = ''2025-01-15T06:00:00.000Z'', t_model = ''claude-sonnet-4-5'',
       t_input_tokens = 100, t_output_tokens = 10, t_cache_creation_tokens = 0,
       t_cache_read_tokens = 0, cost_usd = 9 / 20000\<rparr>]"
  by (simp add: upsert_turns_bulk_def upsert_turn_def inserted_turn_def init_db_def
      example_turn_def turn_cost_def calculate_cost_def get_pricing_def PRICING_def rates_def)

text \<open>
  C5. The claim is that the window of \<open>N\<close> hours holds exactly the Turns not older than
  \<open>N\<close> hours. The query compares the stored text with \<^verbatim>\<open>datetime('now', '-N hours')\<close>,
  whose date and time are separated by a space, while a stored timestamp has \<^verbatim>\<open>T\<close> there,
  which is the greater character: from the eleventh character on the comparison is decided,
  and a Turn of the same UTC date as the cutoff is in the window whatever its time. At
  2025-01-15 12:00:00 UTC, the 5-hour window starts at 07:00:00, and the Turn of 06:00:00,
  six hours old, is counted and is the oldest Turn of the window.
\<close>

theorem rolling_window_counts_six_hours_old:
  "iso8601_utc (1736942400 - 6 * 3600) = ''2025-01-15T06:00:00.000Z'' \<and>
   sqlite_datetime (1736942400 - int 5 * 3600) = ''2025-01-15 07:00:00'' \<and>
   w_turns (query_rolling_window 1736942400 5
     (fst (upsert_turns_bulk
        [example_turn ''msg_1'' ''s1'' (iso8601_utc (1736942400 - 6 * 3600))
           ''claude-sonnet-4-5'' 10 0]
        init_db))) = 1 \<and>
   w_output_tokens (query_rolling_window 1736942400 5
     (fst (upsert_turns_bulk
        [example_turn ''msg_1'' ''s1'' (iso8601_utc (1736942400 - 6 * 3600))
           ''claude-sonnet-4-5'' 10 0]
        init_db))) = Some 10 \<and>
   oldest_turn (query_rolling_window 1736942400 5
     (fst (upsert_turns_bulk
        [example_turn ''msg_1'' ''s1'' (iso8601_utc (1736942400 - 6 * 3600))
           ''claude-sonnet-4-5'' 10 0]
        init_db))) = Some ''2025-01-15T06:00:00.000Z''"
  unfolding six_hours_before_noon query_rolling_window_def noon_cutoff store_six_hours_old
  by simp

text \<open>
  When the cutoff falls on a later date than the Turn, the texts differ in the date and the
  comparison is right: at 05:30:00 UTC of the same day the window starts at 00:30:00, and a
  Turn of 23:30:00 the day before, six hours old, is not in the window.
\<close>

lemma early_cutoff: "sqlite_datetime (1736919000 - int 5 * 3600) = ''2025-01-15 00:30:00''"
  by code_simp

lemma six_hours_before_early:
  "iso8601_utc (1736919000 - 6 * 3600) = ''2025-01-14T23:30:00.000Z''"
  by code_simp

lemma rolling_window_previous_day:
  "w_turns (query_rolling_window 1736919000 5
     \<lparr>sessions = [],
      turns = [inserted_turn
        (example_turn ''msg_1'' ''s1'' (iso8601_utc (1736919000 - 6 * 3600))
           ''claude-sonnet-4-5'' 10 0) 0]\<rparr>) = 0"
  unfolding six_hours_before_early query_rolling_window_def early_cutoff
  by (simp add: inserted_turn_def example_turn_def)

end
